theory Spec2Isabelle
  imports Complex_Main
begin

section \<open>Data model (models/data\_models.py)\<close>

text \<open>
  Python floats are idealised as reals: the engine only copies, compares, adds and
  subtracts prices. Python ints are \<open>int\<close>. Optional fields are \<open>option\<close>.
  Memory, statistics and learned patterns of an agent are left out: the negotiation
  graph and the capital arithmetic never read them.
\<close>

datatype NegotiationAction = MAKE_OFFER | ACCEPT | REJECT | COUNTER | WALK_AWAY

datatype status = active | accepted | rejected | walked_away

datatype error = KeyError | TypeError | ZeroDivisionError | ValidationError

record Product =
  name :: string
  category :: string
  base_market_value :: real

record InventoryItem =
  product :: Product
  cost_basis :: real

record Listing =
  listing_id :: string
  listing_seller_id :: string
  listing_product :: Product
  listing_price :: real
  minimum_acceptable :: real

record Transaction =
  txn_buyer_id :: string
  txn_seller_id :: string
  txn_product :: Product
  txn_final_price :: real
  txn_cost_basis :: real
  negotiation_rounds :: int

record AgentState =
  agent_id :: string
  capital :: real
  inventory :: "InventoryItem list"

record NegotiationMessage =
  round_number :: int
  from_agent :: string
  to_agent :: string
  msg_action :: NegotiationAction
  msg_price :: "real option"
  message :: string

record NegotiationDecision =
  action :: NegotiationAction
  price :: "real option"
  decision_message :: string

text \<open>
  The pydantic constructors validate their fields and raise \<open>ValidationError\<close>.
  \<open>NegotiationMessage\<close>: \<open>round_number\<close> in 1..5, both agent ids and the text
  non-empty, the price absent or positive.
\<close>

definition new_NegotiationMessage ::
  "int \<Rightarrow> string \<Rightarrow> string \<Rightarrow> NegotiationAction \<Rightarrow> real option \<Rightarrow> string
     \<Rightarrow> error + NegotiationMessage" where
  "new_NegotiationMessage r f t a p m =
     (if 0 < r \<and> r \<le> 5 \<and> f \<noteq> [] \<and> t \<noteq> []
         \<and> (case p of None \<Rightarrow> True | Some v \<Rightarrow> 0 < v) \<and> m \<noteq> []
      then Inr \<lparr>round_number = r, from_agent = f, to_agent = t, msg_action = a,
                msg_price = p, message = m\<rparr>
      else Inl ValidationError)"

text \<open>
  \<open>InventoryItem\<close>: \<open>cost_basis\<close> positive and between 50\% and 100\% of the
  product's base market value.
\<close>

definition new_InventoryItem :: "Product \<Rightarrow> real \<Rightarrow> error + InventoryItem" where
  "new_InventoryItem p c =
     (if 0 < c \<and> \<not> c < base_market_value p * 0.5 \<and> \<not> c > base_market_value p * 1.0
      then Inr \<lparr>product = p, cost_basis = c\<rparr>
      else Inl ValidationError)"

text \<open>
  \<open>Transaction\<close>: ids non-empty, \<open>final_price\<close> a positive float (so \<open>None\<close>
  is refused), \<open>cost_basis\<close> positive, \<open>negotiation_rounds\<close> in 1..5. The generated
  transaction id is not modelled.
\<close>

definition new_Transaction ::
  "string \<Rightarrow> string \<Rightarrow> Product \<Rightarrow> real \<Rightarrow> int \<Rightarrow> real option \<Rightarrow> error + Transaction" where
  "new_Transaction b s p c r fp =
     (case fp of
        None \<Rightarrow> Inl ValidationError
      | Some f \<Rightarrow>
          if b \<noteq> [] \<and> s \<noteq> [] \<and> 0 < f \<and> 0 < c \<and> 0 < r \<and> r \<le> 5
          then Inr \<lparr>txn_buyer_id = b, txn_seller_id = s, txn_product = p,
                    txn_final_price = f, txn_cost_basis = c, negotiation_rounds = r\<rparr>
          else Inl ValidationError)"

definition profit :: "Transaction \<Rightarrow> real" where
  "profit t = txn_final_price t - txn_cost_basis t"

definition margin :: "Transaction \<Rightarrow> real" where
  "margin t = profit t / txn_cost_basis t * 100"

section \<open>The Decision Policy (agents/base\_agent.py)\<close>

text \<open>
  The language model is an oracle. It is given the number of calls made so far in the
  session and the arguments of the call, and either raises (an exception of the call, or
  an output that fails to parse into a \<open>NegotiationDecision\<close>: both happen inside the
  \<open>try\<close> block) or returns a decision.
\<close>

datatype prompt =
    SellerPrompt AgentState real real real real string int "NegotiationMessage list"
  | BuyerPrompt AgentState real real Listing string int "NegotiationMessage list"

datatype llm_result = Raises | Returns NegotiationDecision

type_synonym llm = "nat \<Rightarrow> prompt \<Rightarrow> llm_result"

text \<open>The two fallback decisions of the \<open>except\<close> blocks.\<close>

definition seller_fallback :: "real \<Rightarrow> real \<Rightarrow> NegotiationDecision" where
  "seller_fallback offer_price minimum =
     (if offer_price > minimum
      then \<lparr>action = ACCEPT, price = None, decision_message = []\<rparr>
      else \<lparr>action = REJECT, price = None, decision_message = []\<rparr>)"

definition buyer_fallback :: NegotiationDecision where
  "buyer_fallback = \<lparr>action = WALK_AWAY, price = None, decision_message = []\<rparr>"

text \<open>
  \<open>evaluate_offer_as_seller\<close>. Before the \<open>try\<close> the prompt is formatted:
  \<open>offer_price - cost_basis\<close> raises \<open>TypeError\<close> on \<open>None\<close>, and the three
  divisions raise \<open>ZeroDivisionError\<close>. Inside the \<open>try\<close> every exception leads to
  the fallback.
\<close>

definition evaluate_offer_as_seller ::
  "llm \<Rightarrow> nat \<Rightarrow> AgentState \<Rightarrow> real option \<Rightarrow> real \<Rightarrow> real \<Rightarrow> real \<Rightarrow> string \<Rightarrow> int
     \<Rightarrow> NegotiationMessage list \<Rightarrow> error + NegotiationDecision" where
  "evaluate_offer_as_seller l n self offer cost lprice minimum buyer round_num hist =
     (case offer of
        None \<Rightarrow> Inl TypeError
      | Some offer_price \<Rightarrow>
          if cost = 0 \<or> lprice = 0 \<or> minimum = 0 then Inl ZeroDivisionError
          else Inr (case l n (SellerPrompt self offer_price cost lprice minimum buyer
                                round_num hist) of
                      Raises \<Rightarrow> seller_fallback offer_price minimum
                    | Returns decision \<Rightarrow> decision))"

text \<open>
  \<open>evaluate_counter_as_buyer\<close>. Formatting the prompt raises \<open>TypeError\<close> on a
  missing counter price and \<open>ZeroDivisionError\<close> on a zero last offer or listing
  price. Inside the \<open>try\<close>, a COUNTER is validated: with no price, the log line formats
  \<open>None\<close>, which raises and so leads to the fallback; a price above the capital or a
  non-positive one turns the decision into WALK\_AWAY without a price.
\<close>

definition evaluate_counter_as_buyer ::
  "llm \<Rightarrow> nat \<Rightarrow> AgentState \<Rightarrow> real option \<Rightarrow> real \<Rightarrow> Listing \<Rightarrow> string \<Rightarrow> int
     \<Rightarrow> NegotiationMessage list \<Rightarrow> error + NegotiationDecision" where
  "evaluate_counter_as_buyer l n self counter my_last_offer lst seller round_num hist =
     (case counter of
        None \<Rightarrow> Inl TypeError
      | Some counter_price \<Rightarrow>
          if my_last_offer = 0 \<or> listing_price lst = 0 then Inl ZeroDivisionError
          else Inr (case l n (BuyerPrompt self counter_price my_last_offer lst seller
                                round_num hist) of
                      Raises \<Rightarrow> buyer_fallback
                    | Returns decision \<Rightarrow>
                        if action decision = COUNTER then
                          (case price decision of
                             None \<Rightarrow> buyer_fallback
                           | Some p \<Rightarrow>
                               if p > capital self
                               then decision\<lparr>action := WALK_AWAY, price := None\<rparr>
                               else if p \<le> 0
                               then decision\<lparr>action := WALK_AWAY, price := None\<rparr>
                               else decision)
                        else decision))"

section \<open>The negotiation nodes (negotiation/negotiation\_nodes.py)\<close>

text \<open>
  \<open>last_action\<close> holds the action's name in the source; the enum's values are its
  names, so the field is modelled as an optional action. \<open>llm_calls\<close> is a ghost
  field: the number of policy invocations made by the nodes so far.
\<close>

record NegotiationState =
  buyer_id :: string
  seller_id :: string
  listing :: Listing
  initial_offer :: real
  current_offer :: "real option"
  current_round :: int
  history :: "NegotiationMessage list"
  status :: status
  final_price :: "real option"
  last_action :: "NegotiationAction option"
  last_message :: string
  llm_calls :: nat

text \<open>\<open>x or default\<close> on strings.\<close>

definition or_default :: "string \<Rightarrow> string \<Rightarrow> string" where
  "or_default m d = (if m = [] then d else m)"

text \<open>
  The default texts interpolate a price with two decimals (and the opening offer the
  product's name); only the fixed part of each text is kept, as a text matters to the
  engine only through being non-empty. Formatting a missing price raises \<open>TypeError\<close>,
  which happens where a default text is needed for a decision without a price.
\<close>

definition buyer_makes_initial_offer ::
  "NegotiationState \<Rightarrow> (string \<rightharpoonup> AgentState) \<Rightarrow> error + NegotiationState" where
  "buyer_makes_initial_offer s agents =
     (case new_NegotiationMessage (current_round s) (buyer_id s) (seller_id s) MAKE_OFFER
             (Some (initial_offer s)) ''I'd like to offer $ for '' of
        Inl e \<Rightarrow> Inl e
      | Inr m \<Rightarrow>
          Inr (s\<lparr>history := history s @ [m],
                 current_offer := Some (initial_offer s),
                 last_action := Some MAKE_OFFER,
                 last_message := message m\<rparr>))"

definition seller_evaluates_offer ::
  "llm \<Rightarrow> NegotiationState \<Rightarrow> (string \<rightharpoonup> AgentState) \<Rightarrow> error + NegotiationState" where
  "seller_evaluates_offer l s agents =
     (case agents (seller_id s) of
        None \<Rightarrow> Inl KeyError
      | Some seller \<Rightarrow>
          (case find (\<lambda>item. name (product item) = name (listing_product (listing s)))
                  (inventory seller) of
             None \<Rightarrow> Inr (s\<lparr>status := rejected, last_action := Some REJECT\<rparr>)
           | Some inventory_item \<Rightarrow>
               (case evaluate_offer_as_seller l (llm_calls s) seller (current_offer s)
                       (cost_basis inventory_item) (listing_price (listing s))
                       (minimum_acceptable (listing s)) (buyer_id s) (current_round s)
                       (history s) of
                  Inl e \<Rightarrow> Inl e
                | Inr decision \<Rightarrow>
                    (case (if action decision = ACCEPT then
                             Inr (or_default (decision_message decision)
                                    ''I accepted your offer of . Deal'',
                                  s\<lparr>llm_calls := Suc (llm_calls s), status := accepted,
                                     final_price := current_offer s\<rparr>)
                           else if action decision = REJECT then
                             Inr (or_default (decision_message decision)
                                    ''Sorry, I cannot accept your offer of . Deal'',
                                  s\<lparr>llm_calls := Suc (llm_calls s), status := rejected\<rparr>)
                           else if decision_message decision = [] \<and> price decision = None
                           then Inl TypeError
                           else
                             Inr (or_default (decision_message decision) ''I can do $'',
                                  case price decision of
                                    None \<Rightarrow> s\<lparr>llm_calls := Suc (llm_calls s)\<rparr>
                                  | Some p \<Rightarrow> s\<lparr>llm_calls := Suc (llm_calls s),
                                                 current_offer := Some p\<rparr>)) of
                       Inl e \<Rightarrow> Inl e
                     | Inr (message_text, s1) \<Rightarrow>
                         (case new_NegotiationMessage (current_round s1) (seller_id s1)
                                 (buyer_id s1) (action decision) (price decision)
                                 message_text of
                            Inl e \<Rightarrow> Inl e
                          | Inr m \<Rightarrow>
                              Inr (s1\<lparr>history := history s1 @ [m],
                                      last_action := Some (action decision),
                                      last_message := message_text\<rparr>))))))"

text \<open>
  The buyer's last offer: the price of the latest message of the buyer that carries a
  truthy price (present and not zero), else the initial offer.
\<close>

definition buyer_last_offer :: "NegotiationState \<Rightarrow> real" where
  "buyer_last_offer s =
     (case find (\<lambda>msg. from_agent msg = buyer_id s
                        \<and> (case msg_price msg of None \<Rightarrow> False | Some v \<Rightarrow> v \<noteq> 0))
             (rev (history s)) of
        None \<Rightarrow> initial_offer s
      | Some msg \<Rightarrow> (case msg_price msg of None \<Rightarrow> initial_offer s | Some v \<Rightarrow> v))"

definition buyer_evaluates_counter ::
  "llm \<Rightarrow> NegotiationState \<Rightarrow> (string \<rightharpoonup> AgentState) \<Rightarrow> error + NegotiationState" where
  "buyer_evaluates_counter l s0 agents =
     (let s = s0\<lparr>current_round := current_round s0 + 1\<rparr> in
      case agents (buyer_id s) of
        None \<Rightarrow> Inl KeyError
      | Some buyer \<Rightarrow>
          (case evaluate_counter_as_buyer l (llm_calls s) buyer (current_offer s)
                  (buyer_last_offer s) (listing s) (seller_id s) (current_round s)
                  (history s) of
             Inl e \<Rightarrow> Inl e
           | Inr decision \<Rightarrow>
               (case (if action decision = ACCEPT then
                        Inr (or_default (decision_message decision)
                               ''I accepted your offer of . Deal'',
                             s\<lparr>llm_calls := Suc (llm_calls s), status := accepted,
                                final_price := current_offer s\<rparr>)
                      else if action decision = WALK_AWAY then
                        Inr (or_default (decision_message decision) ''I am going to pass'',
                             s\<lparr>llm_calls := Suc (llm_calls s), status := walked_away\<rparr>)
                      else if decision_message decision = [] \<and> price decision = None
                      then Inl TypeError
                      else
                        Inr (or_default (decision_message decision) ''How about $?'',
                             s\<lparr>llm_calls := Suc (llm_calls s),
                                current_offer := price decision\<rparr>)) of
                  Inl e \<Rightarrow> Inl e
                | Inr (message_text, s1) \<Rightarrow>
                    (case new_NegotiationMessage (current_round s1) (buyer_id s1)
                            (seller_id s1) (action decision) (price decision)
                            message_text of
                       Inl e \<Rightarrow> Inl e
                     | Inr m \<Rightarrow>
                         Inr (s1\<lparr>history := history s1 @ [m],
                                 last_action := Some (action decision),
                                 last_message := message_text\<rparr>)))))"

definition check_max_rounds :: "NegotiationState \<Rightarrow> NegotiationState" where
  "check_max_rounds s =
     (if current_round s \<ge> 5 then s\<lparr>status := rejected, last_action := Some REJECT\<rparr>
      else s)"

definition finalized_success :: "NegotiationState \<Rightarrow> NegotiationState" where
  "finalized_success s = s"

definition finalized_failure :: "NegotiationState \<Rightarrow> NegotiationState" where
  "finalized_failure s = s"

section \<open>The negotiation engine (negotiation/negotiation\_engine.py)\<close>

datatype route = to_success | to_failure | to_continue

definition route_seller_decision :: "NegotiationState \<Rightarrow> route" where
  "route_seller_decision s =
     (if last_action s = Some ACCEPT then to_success
      else if last_action s = Some REJECT then to_failure
      else to_continue)"

definition route_buyer_decision :: "NegotiationState \<Rightarrow> route" where
  "route_buyer_decision s =
     (if last_action s = Some ACCEPT then to_success
      else if last_action s = Some WALK_AWAY then to_failure
      else to_continue)"

definition route_after_round_check :: "NegotiationState \<Rightarrow> route" where
  "route_after_round_check s =
     (if status s = accepted then to_success
      else if status s \<in> {rejected, walked_away} then to_failure
      else to_continue)"

text \<open>
  The graph of \<open>build_graph\<close>: its nodes, and one step of its execution from a node,
  which runs the node and follows the edge leaving it.
\<close>

datatype node =
  buyer_offer | seller_evaluates | buyer_evaluates | check_rounds | success | failure | END

fun follow :: "route \<Rightarrow> node \<Rightarrow> node" where
  "follow to_success n = success"
| "follow to_failure n = failure"
| "follow to_continue n = n"

fun graph_step ::
  "llm \<Rightarrow> (string \<rightharpoonup> AgentState) \<Rightarrow> node \<times> NegotiationState
     \<Rightarrow> error + node \<times> NegotiationState" where
  "graph_step l agents (buyer_offer, s) =
     (case buyer_makes_initial_offer s agents of
        Inl e \<Rightarrow> Inl e
      | Inr s' \<Rightarrow> Inr (seller_evaluates, s'))"
| "graph_step l agents (seller_evaluates, s) =
     (case seller_evaluates_offer l s agents of
        Inl e \<Rightarrow> Inl e
      | Inr s' \<Rightarrow> Inr (follow (route_seller_decision s') buyer_evaluates, s'))"
| "graph_step l agents (buyer_evaluates, s) =
     (case buyer_evaluates_counter l s agents of
        Inl e \<Rightarrow> Inl e
      | Inr s' \<Rightarrow> Inr (follow (route_buyer_decision s') check_rounds, s'))"
| "graph_step l agents (check_rounds, s) =
     (let s' = check_max_rounds s
      in Inr (follow (route_after_round_check s') seller_evaluates, s'))"
| "graph_step l agents (success, s) = Inr (END, finalized_success s)"
| "graph_step l agents (failure, s) = Inr (END, finalized_failure s)"
| "graph_step l agents (END, s) = Inr (END, s)"

text \<open>
  Running the graph to its end (\<open>graph.invoke\<close>). The measure that makes the run
  terminate is the round budget: a buyer evaluation either raises or uses up a round.
\<close>

fun budget :: "node \<times> NegotiationState \<Rightarrow> nat" where
  "budget (END, s) = 0"
| "budget (success, s) = 1"
| "budget (failure, s) = 1"
| "budget (buyer_evaluates, s) = 3 * nat (5 - current_round s) + 3"
| "budget (seller_evaluates, s) = 3 * nat (5 - current_round s) + 4"
| "budget (check_rounds, s) = 3 * nat (5 - current_round s) + 5"
| "budget (buyer_offer, s) = 3 * nat (5 - current_round s) + 5"

function invoke ::
  "llm \<Rightarrow> (string \<rightharpoonup> AgentState) \<Rightarrow> node \<times> NegotiationState \<Rightarrow> error + NegotiationState" where
  "invoke l agents (n, s) =
     (if n = END then Inr s
      else case graph_step l agents (n, s) of
             Inl e \<Rightarrow> Inl e
           | Inr c' \<Rightarrow> invoke l agents c')"
  by pat_completeness auto
termination
proof (relation "measure (\<lambda>(l, agents, c). budget c)")
  show "wf (measure (\<lambda>(l, agents, c). budget c))" by simp
next
  fix l :: llm and agents :: "string \<rightharpoonup> AgentState" and n s c'
  assume ne: "n \<noteq> END" and st: "graph_step l agents (n, s) = Inr c'"
  have "budget c' < budget (n, s)"
  proof (cases n)
    case buyer_offer
    with st show ?thesis
      by (auto simp: buyer_makes_initial_offer_def split: sum.splits)
  next
    case seller_evaluates
    with st show ?thesis
      by (cases "route_seller_decision (snd c')")
         (auto simp: seller_evaluates_offer_def
               split: sum.splits option.splits if_splits prod.splits)
  next
    case buyer_evaluates
    with st show ?thesis
      by (cases "route_buyer_decision (snd c')")
         (auto simp: buyer_evaluates_counter_def new_NegotiationMessage_def Let_def
               split: sum.splits option.splits if_splits prod.splits)
  next
    case check_rounds
    with st show ?thesis
      by (cases "route_after_round_check (check_max_rounds s)")
         (auto simp: Let_def check_max_rounds_def route_after_round_check_def
               split: if_splits)
  next
    case success
    with st show ?thesis by auto
  next
    case failure
    with st show ?thesis by auto
  next
    case END
    with ne show ?thesis by simp
  qed
  then show "((l, agents, c'), (l, agents, n, s)) \<in> measure (\<lambda>(l, agents, c). budget c)"
    by simp
qed

text \<open>The configuration after \<open>k\<close> steps of the graph: the observation points of a run.\<close>

fun run_steps ::
  "llm \<Rightarrow> (string \<rightharpoonup> AgentState) \<Rightarrow> nat \<Rightarrow> node \<times> NegotiationState
     \<Rightarrow> error + node \<times> NegotiationState" where
  "run_steps l agents 0 c = Inr c"
| "run_steps l agents (Suc k) c =
     (case graph_step l agents c of
        Inl e \<Rightarrow> Inl e
      | Inr c' \<Rightarrow> run_steps l agents k c')"

section \<open>The marketplace (market/marketplace.py)\<close>

record Marketplace =
  active_listings :: "string \<rightharpoonup> Listing"
  removed_listings :: "Listing list"
  completed_transactions :: "Transaction list"

definition get_listing :: "Marketplace \<Rightarrow> string \<Rightarrow> Listing option" where
  "get_listing mp lid = active_listings mp lid"

definition remove_listing :: "Marketplace \<Rightarrow> string \<Rightarrow> bool \<times> Marketplace" where
  "remove_listing mp lid =
     (case active_listings mp lid of
        None \<Rightarrow> (False, mp)
      | Some lst \<Rightarrow>
          (True, mp\<lparr>active_listings := (active_listings mp)(lid := None),
                    removed_listings := removed_listings mp @ [lst]\<rparr>))"

definition record_transaction :: "Marketplace \<Rightarrow> Transaction \<Rightarrow> Marketplace" where
  "record_transaction mp t = mp\<lparr>completed_transactions := completed_transactions mp @ [t]\<rparr>"

section \<open>Settlement and the session as a whole\<close>

record NegotiationEngine =
  marketplace :: Marketplace
  engine_agents :: "string \<rightharpoonup> AgentState"

definition create_transaction ::
  "NegotiationEngine \<Rightarrow> NegotiationState \<Rightarrow> error + Transaction" where
  "create_transaction eng s =
     (case engine_agents eng (seller_id s) of
        None \<Rightarrow> Inl KeyError
      | Some seller \<Rightarrow>
          new_Transaction (buyer_id s) (seller_id s) (listing_product (listing s))
            (case find (\<lambda>item. name (product item) = name (listing_product (listing s)))
                    (inventory seller) of
               None \<Rightarrow> listing_price (listing s) * 0.75
             | Some item \<Rightarrow> cost_basis item)
            (current_round s) (final_price s))"

text \<open>
  The agents are objects shared through the dictionary, and the buyer and the seller of a
  transaction may be the same object. The dictionary is therefore the store: every
  mutation reads the agent under its id and writes it back.
\<close>

definition modify ::
  "(string \<rightharpoonup> AgentState) \<Rightarrow> string \<Rightarrow> (AgentState \<Rightarrow> AgentState) \<Rightarrow> (string \<rightharpoonup> AgentState)" where
  "modify agents k f = (case agents k of None \<Rightarrow> agents | Some a \<Rightarrow> agents(k \<mapsto> f a))"

definition update_capital :: "(string \<rightharpoonup> AgentState) \<Rightarrow> Transaction \<Rightarrow> (string \<rightharpoonup> AgentState)" where
  "update_capital agents t =
     modify
       (modify agents (txn_buyer_id t) (\<lambda>b. b\<lparr>capital := capital b + txn_cost_basis t\<rparr>))
       (txn_seller_id t) (\<lambda>a. a\<lparr>capital := capital a - txn_cost_basis t\<rparr>)"

text \<open>
  \<open>_complete_transaction\<close>: the result is the store after the call, with the exception
  that interrupted it, if any. The memory hooks that follow the capital update are not
  modelled.
\<close>

definition complete_transaction ::
  "(string \<rightharpoonup> AgentState) \<Rightarrow> Transaction \<Rightarrow> error option \<times> (string \<rightharpoonup> AgentState)" where
  "complete_transaction agents t =
     (case agents (txn_buyer_id t) of
        None \<Rightarrow> (Some KeyError, agents)
      | Some buyer \<Rightarrow>
          (case agents (txn_seller_id t) of
             None \<Rightarrow> (Some KeyError, agents)
           | Some seller \<Rightarrow>
               (case find (\<lambda>item. name (product item) = name (txn_product t))
                       (inventory seller) of
                  None \<Rightarrow> (None, update_capital agents t)
                | Some item_to_remove \<Rightarrow>
                    (let agents1 = modify agents (txn_seller_id t)
                           (\<lambda>a. a\<lparr>inventory := remove1 item_to_remove (inventory a)\<rparr>)
                     in case new_InventoryItem (txn_product t) (txn_cost_basis t) of
                          Inl e \<Rightarrow> (Some e, agents1)
                        | Inr new_item \<Rightarrow>
                            (None,
                             update_capital
                               (modify agents1 (txn_buyer_id t)
                                  (\<lambda>b. b\<lparr>inventory := inventory b @ [new_item]\<rparr>))
                               t)))))"

datatype reason = Status status | Error error

datatype result =
    is_success: Succeeded (res_transaction: Transaction) (res_final_price: "real option")
      (rounds: int) (res_history: "NegotiationMessage list")
  | Failed (res_reason: reason) (rounds: int) (res_history: "NegotiationMessage list")

definition initial_state :: "string \<Rightarrow> Listing \<Rightarrow> real \<Rightarrow> NegotiationState" where
  "initial_state buyer lst offer =
     \<lparr>buyer_id = buyer, seller_id = listing_seller_id lst, listing = lst,
      initial_offer = offer, current_offer = Some offer, current_round = 1,
      history = [], status = active, final_price = None, last_action = None,
      last_message = [], llm_calls = 0\<rparr>"

text \<open>
  \<open>start_negotiation\<close>. Every exception inside its \<open>try\<close> gives the error result,
  which reports 0 rounds and an empty history; what was mutated before the exception
  stays mutated. The \<open>max_rounds\<close> parameter is never read by the source.
\<close>

definition start_negotiation ::
  "llm \<Rightarrow> NegotiationEngine \<Rightarrow> string \<Rightarrow> Listing \<Rightarrow> real \<Rightarrow> result \<times> NegotiationEngine" where
  "start_negotiation l eng buyer lst offer =
     (case invoke l (engine_agents eng) (buyer_offer, initial_state buyer lst offer) of
        Inl e \<Rightarrow> (Failed (Error e) 0 [], eng)
      | Inr final_state \<Rightarrow>
          if status final_state = accepted then
            (case create_transaction eng final_state of
               Inl e \<Rightarrow> (Failed (Error e) 0 [], eng)
             | Inr transaction \<Rightarrow>
                 (let mp = record_transaction
                             (snd (remove_listing (marketplace eng) (listing_id lst)))
                             transaction;
                      (err, agents') = complete_transaction (engine_agents eng) transaction;
                      eng' = \<lparr>marketplace = mp, engine_agents = agents'\<rparr>
                  in case err of
                       Some e \<Rightarrow> (Failed (Error e) 0 [], eng')
                     | None \<Rightarrow>
                         (Succeeded transaction (final_price final_state)
                            (current_round final_state) (history final_state), eng')))
          else
            (case engine_agents eng buyer of
               None \<Rightarrow> (Failed (Error KeyError) 0 [], eng)
             | Some b \<Rightarrow>
                 (case engine_agents eng (listing_seller_id lst) of
                    None \<Rightarrow> (Failed (Error KeyError) 0 [], eng)
                  | Some a \<Rightarrow>
                      (Failed (Status (status final_state)) (current_round final_state)
                         (history final_state), eng))))"

section \<open>The coordinator's check before a session (market/coordinator.py)\<close>

record Opportunity =
  opp_buyer_id :: string
  opp_listing :: Listing
  offered_price :: real

text \<open>
  One iteration of the loop of \<open>run_negotiation_phase\<close>: the listing is fetched again
  and the buyer's capital is compared with the offer; either check may skip the
  opportunity (\<open>None\<close>). The lookups of the two agents are outside any \<open>try\<close>.
\<close>

definition run_opportunity ::
  "llm \<Rightarrow> NegotiationEngine \<Rightarrow> Opportunity \<Rightarrow> error + result option \<times> NegotiationEngine" where
  "run_opportunity l eng opp =
     (case get_listing (marketplace eng) (listing_id (opp_listing opp)) of
        None \<Rightarrow> Inr (None, eng)
      | Some lst \<Rightarrow>
          (case engine_agents eng (opp_buyer_id opp) of
             None \<Rightarrow> Inl KeyError
           | Some buyer \<Rightarrow>
               if capital buyer < offered_price opp then Inr (None, eng)
               else (let (res, eng') = start_negotiation l eng (opp_buyer_id opp) lst
                                         (offered_price opp)
                     in case engine_agents eng' (listing_seller_id lst) of
                          None \<Rightarrow> Inl KeyError
                        | Some seller \<Rightarrow> Inr (Some res, eng'))))"

section \<open>The invariant of a session\<close>

text \<open>
  What holds of every configuration of a run that starts from \<open>initial_state\<close>: the
  round stays in 1..5 and is at most 4 where a buyer evaluation may still follow, the
  session is active at every node before the two final ones, and an accepted session
  carries the offer on the table as its final price.
\<close>

definition session_inv :: "node \<times> NegotiationState \<Rightarrow> bool" where
  "session_inv c =
     (case c of (n, s) \<Rightarrow>
        1 \<le> current_round s \<and> current_round s \<le> 5
        \<and> (n \<in> {buyer_offer, seller_evaluates, buyer_evaluates} \<longrightarrow> current_round s \<le> 4)
        \<and> (n \<notin> {success, failure, END} \<longrightarrow> status s = active)
        \<and> (status s = accepted \<longrightarrow> final_price s = current_offer s))"

text \<open>
  What the validated messages leave behind: once the opening offer is recorded, both ids
  are non-empty and the initial offer is positive; every price in the history is
  positive; and when the buyer is about to evaluate, there is an offer on the table and
  the listing price is not zero.
\<close>

definition session_ready :: "node \<times> NegotiationState \<Rightarrow> bool" where
  "session_ready c =
     (case c of (n, s) \<Rightarrow>
        (n \<noteq> buyer_offer \<longrightarrow> buyer_id s \<noteq> [] \<and> seller_id s \<noteq> [] \<and> 0 < initial_offer s)
        \<and> (\<forall>m \<in> set (history s). case msg_price m of None \<Rightarrow> True | Some v \<Rightarrow> 0 < v)
        \<and> (n = buyer_evaluates \<longrightarrow> current_offer s \<noteq> None \<and> listing_price (listing s) \<noteq> 0))"

text \<open>
  The number of graph steps that lead from the start of a session to a node before the
  final ones, read off the node and the round.
\<close>

fun clock :: "node \<times> NegotiationState \<Rightarrow> int" where
  "clock (buyer_offer, s) = 3 * (current_round s - 1)"
| "clock (seller_evaluates, s) = 3 * (current_round s - 1) + 1"
| "clock (buyer_evaluates, s) = 3 * (current_round s - 1) + 2"
| "clock (check_rounds, s) = 3 * (current_round s - 1)"
| "clock (n, s) = 0"

section \<open>A concrete market\<close>

text \<open>
  One listing of a drill by \<open>agent_1\<close>, and a buyer \<open>agent_2\<close> whose capital is 320.
  The values respect every field validator of the data model.
\<close>

definition ex_product :: Product where
  "ex_product = \<lparr>name = ''Drill'', category = ''Tools'', base_market_value = 400\<rparr>"

definition ex_item :: InventoryItem where
  "ex_item = \<lparr>product = ex_product, cost_basis = 300\<rparr>"

definition ex_listing :: Listing where
  "ex_listing = \<lparr>listing_id = ''listing_1'', listing_seller_id = ''agent_1'',
                  listing_product = ex_product, listing_price = 450,
                  minimum_acceptable = 350\<rparr>"

definition ex_seller :: AgentState where
  "ex_seller = \<lparr>agent_id = ''agent_1'', capital = 5000, inventory = [ex_item]\<rparr>"

definition ex_buyer :: AgentState where
  "ex_buyer = \<lparr>agent_id = ''agent_2'', capital = 320, inventory = []\<rparr>"

definition ex_agents :: "string \<rightharpoonup> AgentState" where
  "ex_agents = [''agent_1'' \<mapsto> ex_seller, ''agent_2'' \<mapsto> ex_buyer]"

definition ex_marketplace :: Marketplace where
  "ex_marketplace = \<lparr>active_listings = [''listing_1'' \<mapsto> ex_listing],
                      removed_listings = [], completed_transactions = []\<rparr>"

definition ex_engine :: NegotiationEngine where
  "ex_engine = \<lparr>marketplace = ex_marketplace, engine_agents = ex_agents\<rparr>"

definition ex_opportunity :: Opportunity where
  "ex_opportunity = \<lparr>opp_buyer_id = ''agent_2'', opp_listing = ex_listing,
                      offered_price = 300\<rparr>"

text \<open>Policies: what the seller answers and what the buyer answers, at every call.\<close>

definition scripted :: "llm_result \<Rightarrow> llm_result \<Rightarrow> llm" where
  "scripted seller_says buyer_says n p =
     (case p of
        SellerPrompt a b c d e f g h \<Rightarrow> seller_says
      | BuyerPrompt a b c d e f g \<Rightarrow> buyer_says)"

definition says :: "NegotiationAction \<Rightarrow> real option \<Rightarrow> llm_result" where
  "says a p = Returns \<lparr>action = a, price = p, decision_message = []\<rparr>"

text \<open>The seller counters at 400 and the buyer accepts.\<close>

definition llm_counter_accept :: llm where
  "llm_counter_accept = scripted (says COUNTER (Some 400)) (says ACCEPT None)"

text \<open>The seller counters at 400 and the buyer counters at 310, round after round.\<close>

definition llm_haggle :: llm where
  "llm_haggle = scripted (says COUNTER (Some 400)) (says COUNTER (Some 310))"

text \<open>The seller counters at 400 and the buyer counters with more than its capital.\<close>

definition llm_overbid :: llm where
  "llm_overbid = scripted (says COUNTER (Some 400)) (says COUNTER (Some 9999))"

text \<open>The seller accepts at once.\<close>

definition llm_accept :: llm where
  "llm_accept = scripted (says ACCEPT None) (says ACCEPT None)"

text \<open>Every call of the policy fails.\<close>

definition llm_down :: llm where
  "llm_down = scripted Raises Raises"

text \<open>A seller that holds the drill with 200 of capital left, and one that holds nothing.\<close>

definition ex_agents_poor :: "string \<rightharpoonup> AgentState" where
  "ex_agents_poor = ex_agents(''agent_1'' \<mapsto> ex_seller\<lparr>capital := 200\<rparr>)"

definition ex_agents_sold :: "string \<rightharpoonup> AgentState" where
  "ex_agents_sold = ex_agents(''agent_1'' \<mapsto> ex_seller\<lparr>inventory := []\<rparr>)"

text \<open>The session's state once the buyer's opening offer of 300 is on the table.\<close>

definition ex_offer_message :: NegotiationMessage where
  "ex_offer_message = \<lparr>round_number = 1, from_agent = ''agent_2'', to_agent = ''agent_1'',
                         msg_action = MAKE_OFFER, msg_price = Some 300,
                         message = ''I'd like to offer $ for ''\<rparr>"

definition ex_state_offered :: NegotiationState where
  "ex_state_offered = (initial_state ''agent_2'' ex_listing 300)
                        \<lparr>history := [ex_offer_message], last_action := Some MAKE_OFFER,
                         last_message := ''I'd like to offer $ for ''\<rparr>"

text \<open>The state after the seller's counter at 400, which the buyer evaluates next.\<close>

definition ex_counter_message :: NegotiationMessage where
  "ex_counter_message = \<lparr>round_number = 1, from_agent = ''agent_1'', to_agent = ''agent_2'',
                           msg_action = COUNTER, msg_price = Some 400,
                           message = ''I can do $''\<rparr>"

definition ex_state_countered :: NegotiationState where
  "ex_state_countered = ex_state_offered
                          \<lparr>history := [ex_offer_message, ex_counter_message],
                           current_offer := Some 400, last_action := Some COUNTER,
                           last_message := ''I can do $'', llm_calls := 1\<rparr>"

text \<open>The state after the buyer has accepted the counter, in round 2.\<close>

definition ex_accept_message :: NegotiationMessage where
  "ex_accept_message = \<lparr>round_number = 2, from_agent = ''agent_2'', to_agent = ''agent_1'',
                          msg_action = ACCEPT, msg_price = None,
                          message = ''I accepted your offer of . Deal''\<rparr>"

definition ex_state_accepted :: NegotiationState where
  "ex_state_accepted = ex_state_countered
                         \<lparr>current_round := 2,
                          history := [ex_offer_message, ex_counter_message, ex_accept_message],
                          status := accepted, final_price := Some 400,
                          last_action := Some ACCEPT,
                          last_message := ''I accepted your offer of . Deal'',
                          llm_calls := 2\<rparr>"

text \<open>The state after the seller has accepted the opening offer at once.\<close>

definition ex_state_sold :: NegotiationState where
  "ex_state_sold = ex_state_offered
                     \<lparr>history := [ex_offer_message,
                                  \<lparr>round_number = 1, from_agent = ''agent_1'',
                                   to_agent = ''agent_2'', msg_action = ACCEPT,
                                   msg_price = None,
                                   message = ''I accepted your offer of . Deal''\<rparr>],
                      status := accepted, final_price := Some 300,
                      last_action := Some ACCEPT,
                      last_message := ''I accepted your offer of . Deal'',
                      llm_calls := 1\<rparr>"

text \<open>
  The session in which both parties counter in every round, as it stands when the round
  check runs for the fourth time.
\<close>

definition ex_seller_counter :: "int \<Rightarrow> NegotiationMessage" where
  "ex_seller_counter r = \<lparr>round_number = r, from_agent = ''agent_1'', to_agent = ''agent_2'',
                           msg_action = COUNTER, msg_price = Some 400,
                           message = ''I can do $''\<rparr>"

definition ex_buyer_counter :: "int \<Rightarrow> NegotiationMessage" where
  "ex_buyer_counter r = \<lparr>round_number = r, from_agent = ''agent_2'', to_agent = ''agent_1'',
                          msg_action = COUNTER, msg_price = Some 310,
                          message = ''How about $?''\<rparr>"

definition ex_state_exhausted :: NegotiationState where
  "ex_state_exhausted = ex_state_offered
                          \<lparr>current_offer := Some 310, current_round := 5,
                           history := [ex_offer_message,
                                       ex_seller_counter 1, ex_buyer_counter 2,
                                       ex_seller_counter 2, ex_buyer_counter 3,
                                       ex_seller_counter 3, ex_buyer_counter 4,
                                       ex_seller_counter 4, ex_buyer_counter 5],
                           last_action := Some COUNTER, last_message := ''How about $?'',
                           llm_calls := 8\<rparr>"

text \<open>The transaction of the session in which the buyer accepts the counter at 400.\<close>

definition ex_transaction :: Transaction where
  "ex_transaction = \<lparr>txn_buyer_id = ''agent_2'', txn_seller_id = ''agent_1'',
                      txn_product = ex_product, txn_final_price = 400,
                      txn_cost_basis = 300, negotiation_rounds = 2\<rparr>"

definition ex_engine_poor :: NegotiationEngine where
  "ex_engine_poor = \<lparr>marketplace = ex_marketplace, engine_agents = ex_agents_poor\<rparr>"

lemmas ex_defs =
  ex_product_def ex_item_def ex_listing_def ex_seller_def ex_buyer_def ex_agents_def
  ex_marketplace_def ex_engine_def ex_opportunity_def scripted_def says_def
  llm_counter_accept_def llm_haggle_def llm_overbid_def llm_accept_def llm_down_def
  ex_agents_poor_def ex_agents_sold_def ex_offer_message_def ex_state_offered_def
  ex_counter_message_def ex_state_countered_def ex_accept_message_def
  ex_state_accepted_def ex_state_sold_def ex_seller_counter_def ex_buyer_counter_def
  ex_state_exhausted_def ex_transaction_def ex_engine_poor_def initial_state_def

lemmas node_defs =
  buyer_makes_initial_offer_def seller_evaluates_offer_def buyer_evaluates_counter_def
  evaluate_offer_as_seller_def evaluate_counter_as_buyer_def new_NegotiationMessage_def
  or_default_def buyer_last_offer_def check_max_rounds_def finalized_success_def
  finalized_failure_def route_seller_decision_def route_buyer_decision_def
  route_after_round_check_def seller_fallback_def buyer_fallback_def

section \<open>Properties of the nodes and of the graph\<close>

lemma buyer_makes_initial_offer_round:
  "buyer_makes_initial_offer s agents = Inr s' \<Longrightarrow> current_round s' = current_round s"
  by (auto simp: buyer_makes_initial_offer_def split: sum.splits)

lemma seller_evaluates_offer_round:
  "seller_evaluates_offer l s agents = Inr s' \<Longrightarrow> current_round s' = current_round s"
  by (auto simp: seller_evaluates_offer_def split: sum.splits option.splits if_splits prod.splits)

lemma buyer_evaluates_counter_round:
  "buyer_evaluates_counter l s agents = Inr s'
     \<Longrightarrow> current_round s' = current_round s + 1 \<and> current_round s' \<le> 5"
  by (auto simp: buyer_evaluates_counter_def new_NegotiationMessage_def Let_def
           split: sum.splits option.splits if_splits prod.splits)

lemma check_max_rounds_round: "current_round (check_max_rounds s) = current_round s"
  by (simp add: check_max_rounds_def)

lemma graph_step_round:
  "graph_step l agents (n, s) = Inr (n', s')
     \<Longrightarrow> current_round s' = (if n = buyer_evaluates then current_round s + 1 else current_round s)"
  by (cases n)
     (auto simp: Let_def check_max_rounds_round finalized_success_def finalized_failure_def
           split: sum.splits
           dest: buyer_makes_initial_offer_round seller_evaluates_offer_round
                 buyer_evaluates_counter_round)

lemma session_inv_initial: "session_inv (buyer_offer, initial_state b lst off)"
  by (simp add: session_inv_def initial_state_def)

lemma buyer_offer_inv:
  "session_inv (buyer_offer, s) \<Longrightarrow> buyer_makes_initial_offer s agents = Inr s'
     \<Longrightarrow> session_inv (seller_evaluates, s')"
  by (auto simp: session_inv_def buyer_makes_initial_offer_def split: sum.splits)

lemma seller_evaluates_inv:
  "session_inv (seller_evaluates, s) \<Longrightarrow> seller_evaluates_offer l s agents = Inr s'
     \<Longrightarrow> session_inv (follow (route_seller_decision s') buyer_evaluates, s')"
  by (auto simp: session_inv_def seller_evaluates_offer_def route_seller_decision_def
           split: sum.splits option.splits if_splits prod.splits)

lemma buyer_evaluates_inv:
  "session_inv (buyer_evaluates, s) \<Longrightarrow> buyer_evaluates_counter l s agents = Inr s'
     \<Longrightarrow> session_inv (follow (route_buyer_decision s') check_rounds, s')"
  by (auto simp: session_inv_def buyer_evaluates_counter_def route_buyer_decision_def Let_def
           split: sum.splits option.splits if_splits prod.splits)

lemma check_rounds_inv:
  "session_inv (check_rounds, s)
     \<Longrightarrow> session_inv (follow (route_after_round_check (check_max_rounds s)) seller_evaluates,
                        check_max_rounds s)"
  by (auto simp: session_inv_def check_max_rounds_def route_after_round_check_def
           split: if_splits)

lemma graph_step_inv:
  "session_inv (n, s) \<Longrightarrow> graph_step l agents (n, s) = Inr c' \<Longrightarrow> session_inv c'"
proof (cases n)
  case buyer_offer
  assume "session_inv (n, s)" "graph_step l agents (n, s) = Inr c'"
  with buyer_offer show ?thesis by (auto split: sum.splits dest: buyer_offer_inv)
next
  case seller_evaluates
  assume "session_inv (n, s)" "graph_step l agents (n, s) = Inr c'"
  with seller_evaluates show ?thesis by (auto split: sum.splits dest: seller_evaluates_inv)
next
  case buyer_evaluates
  assume "session_inv (n, s)" "graph_step l agents (n, s) = Inr c'"
  with buyer_evaluates show ?thesis by (auto split: sum.splits dest: buyer_evaluates_inv)
next
  case check_rounds
  assume "session_inv (n, s)" "graph_step l agents (n, s) = Inr c'"
  with check_rounds show ?thesis by (auto simp: Let_def dest: check_rounds_inv)
next
  case success
  assume "session_inv (n, s)" "graph_step l agents (n, s) = Inr c'"
  with success show ?thesis by (auto simp: session_inv_def finalized_success_def)
next
  case failure
  assume "session_inv (n, s)" "graph_step l agents (n, s) = Inr c'"
  with failure show ?thesis by (auto simp: session_inv_def finalized_failure_def)
next
  case END
  assume "session_inv (n, s)" "graph_step l agents (n, s) = Inr c'"
  with END show ?thesis by auto
qed

lemma run_steps_inv:
  "session_inv c \<Longrightarrow> run_steps l agents k c = Inr c' \<Longrightarrow> session_inv c'"
proof (induction k arbitrary: c)
  case 0
  then show ?case by simp
next
  case (Suc k)
  then show ?case
    by (cases c) (auto split: sum.splits dest: graph_step_inv)
qed

lemma invoke_run_steps:
  "invoke l agents c = Inr sf \<Longrightarrow> \<exists>k. run_steps l agents k c = Inr (END, sf)"
proof (induction l agents c rule: invoke.induct)
  case (1 l agents n s)
  show ?case
  proof (cases "n = END")
    case True
    with "1.prems" have "run_steps l agents 0 (n, s) = Inr (END, sf)" by simp
    then show ?thesis by blast
  next
    case False
    with "1.prems" obtain c' where st: "graph_step l agents (n, s) = Inr c'"
      and inv: "invoke l agents c' = Inr sf"
      by (auto split: sum.splits)
    from "1.IH"[OF False st inv] obtain k where "run_steps l agents k c' = Inr (END, sf)" ..
    with st have "run_steps l agents (Suc k) (n, s) = Inr (END, sf)" by simp
    then show ?thesis by blast
  qed
qed

lemma invoke_inv:
  "invoke l agents (buyer_offer, initial_state b lst off) = Inr sf \<Longrightarrow> session_inv (END, sf)"
  using invoke_run_steps run_steps_inv session_inv_initial by blast

lemma start_negotiation_rounds:
  "0 \<le> rounds (fst (start_negotiation l eng b lst off))
   \<and> rounds (fst (start_negotiation l eng b lst off)) \<le> 5"
proof (cases "invoke l (engine_agents eng) (buyer_offer, initial_state b lst off)")
  case (Inl e)
  then show ?thesis by (simp add: start_negotiation_def)
next
  case (Inr sf)
  then have "session_inv (END, sf)" by (rule invoke_inv)
  then have "1 \<le> current_round sf \<and> current_round sf \<le> 5" by (simp add: session_inv_def)
  with Inr show ?thesis
    by (auto simp: start_negotiation_def Let_def split: sum.splits option.splits prod.splits)
qed


lemma run_steps_invoke:
  "run_steps l agents k c = Inr c' \<Longrightarrow> invoke l agents c = invoke l agents c'"
proof (induction k arbitrary: c)
  case 0
  then show ?case by simp
next
  case (Suc k)
  obtain n s where c: "c = (n, s)" by (cases c)
  from Suc.prems obtain c1 where st: "graph_step l agents c = Inr c1"
    and rest: "run_steps l agents k c1 = Inr c'"
    by (auto split: sum.splits)
  have "invoke l agents c = invoke l agents c1"
  proof (cases "n = END")
    case True
    with st c show ?thesis by auto
  next
    case False
    with st c show ?thesis by simp
  qed
  with Suc.IH[OF rest] show ?case by simp
qed

text \<open>The session in which the seller counters and the buyer accepts, step by step.\<close>

lemma ex_step1:
  "graph_step llm_counter_accept ex_agents (buyer_offer, initial_state ''agent_2'' ex_listing 300)
     = Inr (seller_evaluates, ex_state_offered)"
  by (simp add: ex_defs node_defs)

lemma ex_step2:
  "graph_step llm_counter_accept ex_agents (seller_evaluates, ex_state_offered)
     = Inr (buyer_evaluates, ex_state_countered)"
  by (simp add: ex_defs node_defs)

lemma ex_step3:
  "graph_step llm_counter_accept ex_agents (buyer_evaluates, ex_state_countered)
     = Inr (success, ex_state_accepted)"
  by (simp add: ex_defs node_defs)

lemma ex_run3:
  "run_steps llm_counter_accept ex_agents 3 (buyer_offer, initial_state ''agent_2'' ex_listing 300)
     = Inr (success, ex_state_accepted)"
  by (simp add: numeral_3_eq_3 ex_step1 ex_step2 ex_step3 del: graph_step.simps)

lemma ex_invoke:
  "invoke llm_counter_accept ex_agents (buyer_offer, initial_state ''agent_2'' ex_listing 300)
     = Inr ex_state_accepted"
  using run_steps_invoke[OF ex_run3] by (simp add: finalized_success_def)

section \<open>The claims\<close>

text \<open>
  C1. The round counter starts at 1, only the buyer's evaluation increments it, and at
  every configuration of a session, at its final state and in the result that
  \<open>start_negotiation\<close> reports it is within the budget: between 1 and 5 in every state,
  at most 5 in every result (the error result reports 0).
\<close>

theorem round_counter_bounds:
  "current_round (initial_state b lst off) = 1
   \<and> (\<forall>n s n' s'. graph_step l (engine_agents eng) (n, s) = Inr (n', s')
          \<longrightarrow> current_round s'
               = (if n = buyer_evaluates then current_round s + 1 else current_round s))
   \<and> (\<forall>k n s. run_steps l (engine_agents eng) k (buyer_offer, initial_state b lst off)
                 = Inr (n, s)
          \<longrightarrow> 1 \<le> current_round s \<and> current_round s \<le> 5)
   \<and> (\<forall>sf. invoke l (engine_agents eng) (buyer_offer, initial_state b lst off) = Inr sf
          \<longrightarrow> 1 \<le> current_round sf \<and> current_round sf \<le> 5)
   \<and> rounds (fst (start_negotiation l eng b lst off)) \<le> 5"
proof (intro conjI allI impI)
  show "current_round (initial_state b lst off) = 1" by (simp add: initial_state_def)
next
  fix n s n' s'
  assume "graph_step l (engine_agents eng) (n, s) = Inr (n', s')"
  then show "current_round s'
               = (if n = buyer_evaluates then current_round s + 1 else current_round s)"
    by (rule graph_step_round)
next
  fix k n s
  assume "run_steps l (engine_agents eng) k (buyer_offer, initial_state b lst off) = Inr (n, s)"
  with session_inv_initial have inv: "session_inv (n, s)" by (rule run_steps_inv)
  from inv show "1 \<le> current_round s" by (simp add: session_inv_def)
  from inv show "current_round s \<le> 5" by (simp add: session_inv_def)
next
  fix sf
  assume "invoke l (engine_agents eng) (buyer_offer, initial_state b lst off) = Inr sf"
  then have inv: "session_inv (END, sf)" by (rule invoke_inv)
  from inv show "1 \<le> current_round sf" by (simp add: session_inv_def)
  from inv show "current_round sf \<le> 5" by (simp add: session_inv_def)
next
  show "rounds (fst (start_negotiation l eng b lst off)) \<le> 5"
    using start_negotiation_rounds by blast
qed

theorem round_counter_bounds_witness:
  "graph_step llm_counter_accept (engine_agents ex_engine) (buyer_evaluates, ex_state_countered)
     = Inr (success, ex_state_accepted)
   \<and> current_round ex_state_countered = 1 \<and> current_round ex_state_accepted = 2
   \<and> run_steps llm_counter_accept (engine_agents ex_engine) 3
        (buyer_offer, initial_state ''agent_2'' ex_listing 300) = Inr (success, ex_state_accepted)
   \<and> invoke llm_counter_accept (engine_agents ex_engine)
        (buyer_offer, initial_state ''agent_2'' ex_listing 300) = Inr ex_state_accepted
   \<and> rounds (fst (start_negotiation llm_counter_accept ex_engine ''agent_2'' ex_listing 300)) \<le> 5"
proof -
  have ags: "engine_agents ex_engine = ex_agents" by (simp add: ex_engine_def)
  note T = round_counter_bounds[of "''agent_2''" ex_listing 300 llm_counter_accept ex_engine]
  have r1: "current_round ex_state_countered = 1" by (simp add: ex_defs)
  have st: "graph_step llm_counter_accept (engine_agents ex_engine)
              (buyer_evaluates, ex_state_countered) = Inr (success, ex_state_accepted)"
    unfolding ags by (rule ex_step3)
  from T st
  have "current_round ex_state_accepted = current_round ex_state_countered + 1"
    by (auto simp del: graph_step.simps)
  with r1 have r2: "current_round ex_state_accepted = 2" by simp
  from T have "rounds (fst (start_negotiation llm_counter_accept ex_engine ''agent_2'' ex_listing 300)) \<le> 5"
    by blast
  with r1 r2 st ex_run3 ex_invoke ags show ?thesis by (simp del: graph_step.simps)
qed


lemma run_steps_final:
  "fst c \<in> {success, failure, END} \<Longrightarrow> run_steps l agents k c = Inr c'
     \<Longrightarrow> fst c' \<in> {success, failure, END}"
proof (induction k arbitrary: c)
  case 0
  then show ?case by simp
next
  case (Suc k)
  obtain n s where c: "c = (n, s)" by (cases c)
  from Suc.prems c obtain c1 where "graph_step l agents (n, s) = Inr c1"
    and rest: "run_steps l agents k c1 = Inr c'" and "fst c1 \<in> {success, failure, END}"
    by (auto split: sum.splits)
  then show ?case using Suc.IH by blast
qed

lemma graph_step_clock:
  assumes "graph_step l agents (n, s) = Inr (n', s')" and "n' \<notin> {success, failure, END}"
  shows "n \<notin> {success, failure, END} \<and> clock (n', s') = clock (n, s) + 1"
proof (cases n)
  case buyer_offer
  with assms show ?thesis
    by (auto split: sum.splits dest: buyer_makes_initial_offer_round)
next
  case seller_evaluates
  with assms show ?thesis
    by (cases "route_seller_decision s'")
       (auto split: sum.splits dest: seller_evaluates_offer_round)
next
  case buyer_evaluates
  with assms show ?thesis
    by (cases "route_buyer_decision s'")
       (auto split: sum.splits dest: buyer_evaluates_counter_round)
next
  case check_rounds
  with assms show ?thesis
    by (cases "route_after_round_check (check_max_rounds s)")
       (auto simp: Let_def check_max_rounds_round)
next
  case success
  with assms show ?thesis by auto
next
  case failure
  with assms show ?thesis by auto
next
  case END
  with assms show ?thesis by auto
qed

lemma run_steps_clock:
  "run_steps l agents k c = Inr (n', s') \<Longrightarrow> n' \<notin> {success, failure, END}
     \<Longrightarrow> clock (n', s') = clock c + int k"
proof (induction k arbitrary: c)
  case 0
  then show ?case by simp
next
  case (Suc k)
  obtain n s where c: "c = (n, s)" by (cases c)
  from Suc.prems c obtain n1 s1 where st: "graph_step l agents (n, s) = Inr (n1, s1)"
    and rest: "run_steps l agents k (n1, s1) = Inr (n', s')"
    by (auto split: sum.splits)
  have "n1 \<notin> {success, failure, END}"
  proof
    assume "n1 \<in> {success, failure, END}"
    then have "fst (n1, s1) \<in> {success, failure, END}" by simp
    from run_steps_final[OF this rest] Suc.prems(2) show False by simp
  qed
  with st have "clock (n1, s1) = clock (n, s) + 1" using graph_step_clock by blast
  moreover from Suc.IH[OF rest Suc.prems(2)] have "clock (n', s') = clock (n1, s1) + int k" .
  ultimately show ?case using c by simp
qed

lemma check_rounds_exhausted:
  "5 \<le> current_round s
     \<Longrightarrow> graph_step l agents (check_rounds, s)
           = Inr (failure, s\<lparr>status := rejected, last_action := Some REJECT\<rparr>)"
  by (simp add: check_max_rounds_def route_after_round_check_def)

lemma invoke_failure: "invoke l agents (failure, s) = Inr s"
  by (simp add: finalized_failure_def)

lemma twelve_steps:
  assumes run: "run_steps l agents 12 (buyer_offer, initial_state b lst off) = Inr (n, s)"
    and n: "n \<notin> {success, failure, END}"
  shows "n = check_rounds \<and> current_round s = 5"
proof -
  from run_steps_clock[OF run n] have ck: "clock (n, s) = 12"
    by (simp add: initial_state_def)
  from run_steps_inv[OF session_inv_initial run] have inv: "session_inv (n, s)" .
  show ?thesis
  proof (cases n)
    case buyer_offer
    with ck inv show ?thesis by (simp add: session_inv_def)
  next
    case seller_evaluates
    with ck show ?thesis by simp presburger
  next
    case buyer_evaluates
    with ck show ?thesis by simp presburger
  next
    case check_rounds
    with ck show ?thesis by simp
  next
    case success
    with n show ?thesis by simp
  next
    case failure
    with n show ?thesis by simp
  next
    case END
    with n show ?thesis by simp
  qed
qed

lemma start_negotiation_not_accepted:
  assumes "invoke l (engine_agents eng) (buyer_offer, initial_state b lst off) = Inr sf"
    and "status sf \<noteq> accepted"
  shows "\<not> is_success (fst (start_negotiation l eng b lst off))
         \<and> snd (start_negotiation l eng b lst off) = eng"
  using assms by (simp add: start_negotiation_def split: option.splits)

lemma ex_haggle_run:
  "run_steps llm_haggle ex_agents 12 (buyer_offer, initial_state ''agent_2'' ex_listing 300)
     = Inr (check_rounds, ex_state_exhausted)"
  by (simp add: eval_nat_numeral ex_defs node_defs)

text \<open>
  C2. When the round check runs with the round at 5 or more, it sets the status to
  \<open>rejected\<close> and sends the session to the failure node, whatever offer is pending. A
  session that has taken twelve graph steps without reaching a final node (both parties
  countered in each of the four rounds) is at that check with round 5, and ends as
  \<open>rejected\<close>. A session that ends as \<open>rejected\<close> reports failure and leaves the
  engine as it was: no transaction is recorded and the listing stays active.
\<close>

theorem round_budget_forces_rejection:
  "(\<forall>s. 5 \<le> current_round s
       \<longrightarrow> graph_step l (engine_agents eng) (check_rounds, s)
             = Inr (failure, s\<lparr>status := rejected, last_action := Some REJECT\<rparr>))
   \<and> (\<forall>n s. run_steps l (engine_agents eng) 12 (buyer_offer, initial_state b lst off)
               = Inr (n, s) \<and> n \<notin> {success, failure, END}
        \<longrightarrow> n = check_rounds \<and> current_round s = 5
            \<and> invoke l (engine_agents eng) (buyer_offer, initial_state b lst off)
                = Inr (s\<lparr>status := rejected, last_action := Some REJECT\<rparr>))
   \<and> (\<forall>sf. invoke l (engine_agents eng) (buyer_offer, initial_state b lst off) = Inr sf
             \<and> status sf = rejected
        \<longrightarrow> \<not> is_success (fst (start_negotiation l eng b lst off))
            \<and> snd (start_negotiation l eng b lst off) = eng)"
proof (intro conjI allI impI)
  fix s :: NegotiationState
  assume "5 \<le> current_round s"
  then show "graph_step l (engine_agents eng) (check_rounds, s)
               = Inr (failure, s\<lparr>status := rejected, last_action := Some REJECT\<rparr>)"
    by (rule check_rounds_exhausted)
next
  fix n s
  assume h: "run_steps l (engine_agents eng) 12 (buyer_offer, initial_state b lst off)
               = Inr (n, s) \<and> n \<notin> {success, failure, END}"
  then have at: "n = check_rounds \<and> current_round s = 5" using twelve_steps by blast
  from at show "n = check_rounds" ..
  from at show "current_round s = 5" ..
  from h at have "invoke l (engine_agents eng) (buyer_offer, initial_state b lst off)
                    = invoke l (engine_agents eng) (check_rounds, s)"
    using run_steps_invoke by blast
  also from at have "\<dots> = invoke l (engine_agents eng)
                             (failure, s\<lparr>status := rejected, last_action := Some REJECT\<rparr>)"
    by (simp add: check_max_rounds_def route_after_round_check_def)
  also have "\<dots> = Inr (s\<lparr>status := rejected, last_action := Some REJECT\<rparr>)"
    by (rule invoke_failure)
  finally show "invoke l (engine_agents eng) (buyer_offer, initial_state b lst off)
                  = Inr (s\<lparr>status := rejected, last_action := Some REJECT\<rparr>)" .
next
  fix sf
  assume h: "invoke l (engine_agents eng) (buyer_offer, initial_state b lst off) = Inr sf
             \<and> status sf = rejected"
  then have "\<not> is_success (fst (start_negotiation l eng b lst off))
             \<and> snd (start_negotiation l eng b lst off) = eng"
    using start_negotiation_not_accepted[of l eng b lst off sf] by simp
  then show "\<not> is_success (fst (start_negotiation l eng b lst off))"
    and "snd (start_negotiation l eng b lst off) = eng" by simp_all
qed


theorem round_budget_forces_rejection_witness:
  "run_steps llm_haggle (engine_agents ex_engine) 12
       (buyer_offer, initial_state ''agent_2'' ex_listing 300)
     = Inr (check_rounds, ex_state_exhausted)
   \<and> current_round ex_state_exhausted = 5
   \<and> graph_step llm_haggle (engine_agents ex_engine) (check_rounds, ex_state_exhausted)
       = Inr (failure, ex_state_exhausted\<lparr>status := rejected, last_action := Some REJECT\<rparr>)
   \<and> invoke llm_haggle (engine_agents ex_engine)
         (buyer_offer, initial_state ''agent_2'' ex_listing 300)
       = Inr (ex_state_exhausted\<lparr>status := rejected, last_action := Some REJECT\<rparr>)
   \<and> \<not> is_success (fst (start_negotiation llm_haggle ex_engine ''agent_2'' ex_listing 300))
   \<and> snd (start_negotiation llm_haggle ex_engine ''agent_2'' ex_listing 300) = ex_engine"
proof -
  have ags: "engine_agents ex_engine = ex_agents" by (simp add: ex_engine_def)
  note T = round_budget_forces_rejection[of llm_haggle ex_engine "''agent_2''" ex_listing 300]
  have run: "run_steps llm_haggle (engine_agents ex_engine) 12
               (buyer_offer, initial_state ''agent_2'' ex_listing 300)
             = Inr (check_rounds, ex_state_exhausted)"
    unfolding ags by (rule ex_haggle_run)
  have r: "current_round ex_state_exhausted = 5" by (simp add: ex_defs)
  from T r have st: "graph_step llm_haggle (engine_agents ex_engine) (check_rounds, ex_state_exhausted)
       = Inr (failure, ex_state_exhausted\<lparr>status := rejected, last_action := Some REJECT\<rparr>)"
    by (simp del: graph_step.simps)
  from T run have inv: "invoke llm_haggle (engine_agents ex_engine)
         (buyer_offer, initial_state ''agent_2'' ex_listing 300)
       = Inr (ex_state_exhausted\<lparr>status := rejected, last_action := Some REJECT\<rparr>)"
    by blast
  have "status (ex_state_exhausted\<lparr>status := rejected, last_action := Some REJECT\<rparr>) = rejected"
    by simp
  with T inv have "\<not> is_success (fst (start_negotiation llm_haggle ex_engine ''agent_2'' ex_listing 300))
   \<and> snd (start_negotiation llm_haggle ex_engine ''agent_2'' ex_listing 300) = ex_engine"
    by blast
  with run r st inv show ?thesis by blast
qed

text \<open>Scenario B of the specification, as the engine reports it.\<close>

lemma ex_haggle_result:
  "start_negotiation llm_haggle ex_engine ''agent_2'' ex_listing 300
     = (Failed (Status rejected) 5 (history ex_state_exhausted), ex_engine)"
  using run_steps_invoke[OF ex_haggle_run]
  by (simp add: start_negotiation_def check_max_rounds_def route_after_round_check_def finalized_failure_def ex_defs)


lemma seller_accept_price:
  assumes "status s \<noteq> accepted" and "seller_evaluates_offer l s agents = Inr s'"
    and "status s' = accepted"
  shows "final_price s' = current_offer s \<and> current_offer s' = current_offer s"
  using assms
  by (auto simp: seller_evaluates_offer_def
           split: sum.splits option.splits if_splits prod.splits)

lemma buyer_accept_price:
  assumes "status s \<noteq> accepted" and "buyer_evaluates_counter l s agents = Inr s'"
    and "status s' = accepted"
  shows "final_price s' = current_offer s \<and> current_offer s' = current_offer s"
  using assms
  by (auto simp: buyer_evaluates_counter_def Let_def
           split: sum.splits option.splits if_splits prod.splits)

text \<open>
  C3. Whenever the seller's evaluation or the buyer's evaluation takes a session to
  \<open>accepted\<close>, the final price is the offer that was on the table when the step began,
  and the step leaves that offer in place; so every session that ends as \<open>accepted\<close>
  has its final price equal to its current offer.
\<close>

theorem final_price_is_offer_at_acceptance:
  "(\<forall>s s'. status s \<noteq> accepted \<and> seller_evaluates_offer l s agents = Inr s'
             \<and> status s' = accepted
        \<longrightarrow> final_price s' = current_offer s \<and> current_offer s' = current_offer s)
   \<and> (\<forall>s s'. status s \<noteq> accepted \<and> buyer_evaluates_counter l s agents = Inr s'
               \<and> status s' = accepted
        \<longrightarrow> final_price s' = current_offer s \<and> current_offer s' = current_offer s)
   \<and> (\<forall>sf. invoke l agents (buyer_offer, initial_state b lst off) = Inr sf
             \<and> status sf = accepted
        \<longrightarrow> final_price sf = current_offer sf)"
proof (intro conjI allI impI)
  fix s s'
  assume "status s \<noteq> accepted \<and> seller_evaluates_offer l s agents = Inr s'
          \<and> status s' = accepted"
  then have "final_price s' = current_offer s \<and> current_offer s' = current_offer s"
    using seller_accept_price by blast
  then show "final_price s' = current_offer s" and "current_offer s' = current_offer s"
    by simp_all
next
  fix s s'
  assume "status s \<noteq> accepted \<and> buyer_evaluates_counter l s agents = Inr s'
          \<and> status s' = accepted"
  then have "final_price s' = current_offer s \<and> current_offer s' = current_offer s"
    using buyer_accept_price by blast
  then show "final_price s' = current_offer s" and "current_offer s' = current_offer s"
    by simp_all
next
  fix sf
  assume h: "invoke l agents (buyer_offer, initial_state b lst off) = Inr sf
             \<and> status sf = accepted"
  then have "session_inv (END, sf)" using invoke_inv by blast
  with h show "final_price sf = current_offer sf" by (simp add: session_inv_def)
qed

lemma ex_seller_accepts:
  "seller_evaluates_offer llm_accept ex_state_offered ex_agents = Inr ex_state_sold"
  by (simp add: ex_defs node_defs)

lemma ex_buyer_accepts:
  "buyer_evaluates_counter llm_counter_accept ex_state_countered ex_agents
     = Inr ex_state_accepted"
  by (simp add: ex_defs node_defs)

theorem final_price_is_offer_at_acceptance_witness:
  "status ex_state_offered \<noteq> accepted
   \<and> seller_evaluates_offer llm_accept ex_state_offered ex_agents = Inr ex_state_sold
   \<and> status ex_state_sold = accepted
   \<and> final_price ex_state_sold = current_offer ex_state_offered
   \<and> current_offer ex_state_offered = Some 300
   \<and> status ex_state_countered \<noteq> accepted
   \<and> buyer_evaluates_counter llm_counter_accept ex_state_countered ex_agents
       = Inr ex_state_accepted
   \<and> status ex_state_accepted = accepted
   \<and> final_price ex_state_accepted = current_offer ex_state_countered
   \<and> current_offer ex_state_countered = Some 400
   \<and> invoke llm_counter_accept ex_agents
         (buyer_offer, initial_state ''agent_2'' ex_listing 300) = Inr ex_state_accepted
   \<and> final_price ex_state_accepted = current_offer ex_state_accepted"
proof -
  note T1 = final_price_is_offer_at_acceptance[of llm_accept ex_agents]
  note T2 = final_price_is_offer_at_acceptance[of llm_counter_accept ex_agents
              "''agent_2''" ex_listing 300]
  have a: "status ex_state_offered \<noteq> accepted" by (simp add: ex_defs)
  have b: "status ex_state_sold = accepted" by (simp add: ex_defs)
  have c: "current_offer ex_state_offered = Some 300" by (simp add: ex_defs)
  have d: "status ex_state_countered \<noteq> accepted" by (simp add: ex_defs)
  have e: "status ex_state_accepted = accepted" by (simp add: ex_defs)
  have f: "current_offer ex_state_countered = Some 400" by (simp add: ex_defs)
  from T1 a b ex_seller_accepts
  have p1: "final_price ex_state_sold = current_offer ex_state_offered" by blast
  from T2 d e ex_buyer_accepts
  have p2: "final_price ex_state_accepted = current_offer ex_state_countered" by blast
  from T2 e ex_invoke
  have p3: "final_price ex_state_accepted = current_offer ex_state_accepted" by blast
  from a b c d e f p1 p2 p3 ex_seller_accepts ex_buyer_accepts ex_invoke
  show ?thesis by blast
qed

lemma invoke_seller_evaluates_rejected:
  assumes "seller_evaluates_offer l s agents
             = Inr (s\<lparr>status := rejected, last_action := Some REJECT\<rparr>)"
  shows "invoke l agents (seller_evaluates, s)
           = Inr (s\<lparr>status := rejected, last_action := Some REJECT\<rparr>)"
  using assms by (simp add: route_seller_decision_def finalized_failure_def)

text \<open>
  C9. When no item of the seller's inventory has the listing's product name, the seller's
  evaluation sets the status to \<open>rejected\<close> and the session ends there. The result is
  the same for every policy, and the count of policy calls is unchanged: the policy is
  not invoked.
\<close>

theorem missing_inventory_rejects:
  assumes "agents (seller_id s) = Some seller"
    and "\<forall>item \<in> set (inventory seller).
           name (product item) \<noteq> name (listing_product (listing s))"
  shows "seller_evaluates_offer l s agents
           = Inr (s\<lparr>status := rejected, last_action := Some REJECT\<rparr>)
         \<and> graph_step l agents (seller_evaluates, s)
             = Inr (failure, s\<lparr>status := rejected, last_action := Some REJECT\<rparr>)
         \<and> invoke l agents (seller_evaluates, s)
             = Inr (s\<lparr>status := rejected, last_action := Some REJECT\<rparr>)
         \<and> llm_calls (s\<lparr>status := rejected, last_action := Some REJECT\<rparr>) = llm_calls s"
proof -
  from assms(2)
  have "find (\<lambda>item. name (product item) = name (listing_product (listing s)))
          (inventory seller) = None"
    by (simp add: find_None_iff)
  with assms(1)
  have st: "seller_evaluates_offer l s agents
              = Inr (s\<lparr>status := rejected, last_action := Some REJECT\<rparr>)"
    by (simp add: seller_evaluates_offer_def)
  then have "graph_step l agents (seller_evaluates, s)
               = Inr (failure, s\<lparr>status := rejected, last_action := Some REJECT\<rparr>)"
    by (simp add: route_seller_decision_def)
  moreover from st have "invoke l agents (seller_evaluates, s)
               = Inr (s\<lparr>status := rejected, last_action := Some REJECT\<rparr>)"
    by (rule invoke_seller_evaluates_rejected)
  ultimately show ?thesis using st by simp
qed

theorem missing_inventory_rejects_witness:
  "ex_agents_sold (seller_id ex_state_offered) = Some (ex_seller\<lparr>inventory := []\<rparr>)
   \<and> seller_evaluates_offer llm_accept ex_state_offered ex_agents_sold
       = Inr (ex_state_offered\<lparr>status := rejected, last_action := Some REJECT\<rparr>)
   \<and> invoke llm_accept ex_agents_sold (seller_evaluates, ex_state_offered)
       = Inr (ex_state_offered\<lparr>status := rejected, last_action := Some REJECT\<rparr>)"
proof -
  have a: "ex_agents_sold (seller_id ex_state_offered) = Some (ex_seller\<lparr>inventory := []\<rparr>)"
    by (simp add: ex_defs)
  have b: "\<forall>item \<in> set (inventory (ex_seller\<lparr>inventory := []\<rparr>)).
             name (product item) \<noteq> name (listing_product (listing ex_state_offered))"
    by simp
  from missing_inventory_rejects[of ex_agents_sold ex_state_offered
         "ex_seller\<lparr>inventory := []\<rparr>" llm_accept, OF a b] a
  show ?thesis by blast
qed


lemma buyer_last_offer_round [simp]:
  "buyer_last_offer (s\<lparr>current_round := r\<rparr>) = buyer_last_offer s"
  by (simp add: buyer_last_offer_def split: option.splits)

lemma session_ready_initial: "session_ready (buyer_offer, initial_state b lst off)"
  by (simp add: session_ready_def initial_state_def)

lemma buyer_offer_ready:
  "session_ready (buyer_offer, s) \<Longrightarrow> buyer_makes_initial_offer s agents = Inr s'
     \<Longrightarrow> session_ready (seller_evaluates, s')"
  by (auto simp: session_ready_def buyer_makes_initial_offer_def new_NegotiationMessage_def
           split: sum.splits if_splits)

lemma seller_evaluates_ready:
  "session_ready (seller_evaluates, s) \<Longrightarrow> seller_evaluates_offer l s agents = Inr s'
     \<Longrightarrow> session_ready (follow (route_seller_decision s') buyer_evaluates, s')"
  by (auto simp: session_ready_def seller_evaluates_offer_def route_seller_decision_def
                 evaluate_offer_as_seller_def new_NegotiationMessage_def
           split: sum.splits option.splits if_splits prod.splits)

lemma buyer_evaluates_ready:
  "session_ready (buyer_evaluates, s) \<Longrightarrow> buyer_evaluates_counter l s agents = Inr s'
     \<Longrightarrow> session_ready (follow (route_buyer_decision s') check_rounds, s')"
  by (auto simp: session_ready_def buyer_evaluates_counter_def route_buyer_decision_def
                 new_NegotiationMessage_def Let_def
           split: sum.splits option.splits if_splits prod.splits)

lemma check_rounds_ready:
  "session_ready (check_rounds, s)
     \<Longrightarrow> session_ready (follow (route_after_round_check (check_max_rounds s)) seller_evaluates,
                          check_max_rounds s)"
  by (auto simp: session_ready_def check_max_rounds_def route_after_round_check_def
           split: if_splits)

lemma graph_step_ready:
  "session_ready (n, s) \<Longrightarrow> graph_step l agents (n, s) = Inr c' \<Longrightarrow> session_ready c'"
proof (cases n)
  case buyer_offer
  assume "session_ready (n, s)" "graph_step l agents (n, s) = Inr c'"
  with buyer_offer show ?thesis by (auto split: sum.splits dest: buyer_offer_ready)
next
  case seller_evaluates
  assume "session_ready (n, s)" "graph_step l agents (n, s) = Inr c'"
  with seller_evaluates show ?thesis by (auto split: sum.splits dest: seller_evaluates_ready)
next
  case buyer_evaluates
  assume "session_ready (n, s)" "graph_step l agents (n, s) = Inr c'"
  with buyer_evaluates show ?thesis by (auto split: sum.splits dest: buyer_evaluates_ready)
next
  case check_rounds
  assume "session_ready (n, s)" "graph_step l agents (n, s) = Inr c'"
  with check_rounds show ?thesis by (auto simp: Let_def dest: check_rounds_ready)
next
  case success
  assume "session_ready (n, s)" "graph_step l agents (n, s) = Inr c'"
  with success show ?thesis by (auto simp: session_ready_def finalized_success_def)
next
  case failure
  assume "session_ready (n, s)" "graph_step l agents (n, s) = Inr c'"
  with failure show ?thesis by (auto simp: session_ready_def finalized_failure_def)
next
  case END
  assume "session_ready (n, s)" "graph_step l agents (n, s) = Inr c'"
  with END show ?thesis by auto
qed

lemma run_steps_ready:
  "session_ready c \<Longrightarrow> run_steps l agents k c = Inr c' \<Longrightarrow> session_ready c'"
proof (induction k arbitrary: c)
  case 0
  then show ?case by simp
next
  case (Suc k)
  then show ?case
    by (cases c) (auto split: sum.splits dest: graph_step_ready)
qed

lemma buyer_last_offer_nonzero:
  assumes "session_ready (buyer_evaluates, s)"
  shows "buyer_last_offer s \<noteq> 0"
proof (cases "find (\<lambda>msg. from_agent msg = buyer_id s
                        \<and> (case msg_price msg of None \<Rightarrow> False | Some v \<Rightarrow> v \<noteq> 0))
               (rev (history s))")
  case None
  with assms show ?thesis by (simp add: buyer_last_offer_def session_ready_def)
next
  case (Some msg)
  then have "case msg_price msg of None \<Rightarrow> False | Some v \<Rightarrow> v \<noteq> 0"
    by (auto simp: find_Some_iff)
  with Some show ?thesis by (auto simp: buyer_last_offer_def split: option.splits)
qed

text \<open>
  Whenever a session reaches the buyer's evaluation, the state is one in which only a
  missing buyer can make the step raise before the policy is called.
\<close>

lemma buyer_evaluates_reached:
  assumes "run_steps l agents k (buyer_offer, initial_state b lst off)
             = Inr (buyer_evaluates, s)"
  shows "(\<exists>cp. current_offer s = Some cp) \<and> buyer_last_offer s \<noteq> 0
         \<and> listing_price (listing s) \<noteq> 0 \<and> 0 \<le> current_round s \<and> current_round s < 5
         \<and> buyer_id s \<noteq> [] \<and> seller_id s \<noteq> []"
proof -
  from run_steps_ready[OF session_ready_initial assms]
  have rd: "session_ready (buyer_evaluates, s)" .
  from run_steps_inv[OF session_inv_initial assms]
  have inv: "session_inv (buyer_evaluates, s)" .
  from rd have "buyer_last_offer s \<noteq> 0" by (rule buyer_last_offer_nonzero)
  with rd inv show ?thesis by (auto simp: session_ready_def session_inv_def)
qed


text \<open>
  C5. The buyer's policy answers COUNTER at the buyer's evaluation, in a state where the
  step itself does not raise (every state in which a session reaches that node is one,
  by \<open>buyer_evaluates_reached\<close>, provided the buyer is a known agent). If the price
  is missing, above the buyer's capital or not positive, the decision becomes WALK\_AWAY
  without a price, the session's status becomes \<open>walked_away\<close>, the offer on the
  table is untouched and the session ends. Otherwise the counter price becomes the
  current offer and the session goes on to the round check.
\<close>

theorem unaffordable_counter_walks_away:
  assumes "agents (buyer_id s) = Some buyer"
    and "current_offer s = Some cp"
    and "buyer_last_offer s \<noteq> 0" and "listing_price (listing s) \<noteq> 0"
    and "0 \<le> current_round s" and "current_round s < 5"
    and "buyer_id s \<noteq> []" and "seller_id s \<noteq> []"
    and "l (llm_calls s) (BuyerPrompt buyer cp (buyer_last_offer s) (listing s) (seller_id s)
                            (current_round s + 1) (history s)) = Returns d"
    and "action d = COUNTER"
  shows "(price d = None \<or> (\<exists>p. price d = Some p \<and> (p > capital buyer \<or> p \<le> 0))
          \<longrightarrow> (\<exists>d' s'. evaluate_counter_as_buyer l (llm_calls s) buyer (Some cp)
                          (buyer_last_offer s) (listing s) (seller_id s)
                          (current_round s + 1) (history s) = Inr d'
                      \<and> action d' = WALK_AWAY \<and> price d' = None
                      \<and> buyer_evaluates_counter l s agents = Inr s'
                      \<and> status s' = walked_away \<and> current_offer s' = current_offer s
                      \<and> msg_action (last (history s')) = WALK_AWAY
                      \<and> msg_price (last (history s')) = None
                      \<and> graph_step l agents (buyer_evaluates, s) = Inr (failure, s')
                      \<and> invoke l agents (buyer_evaluates, s) = Inr s'))
         \<and> ((\<exists>p. price d = Some p \<and> 0 < p \<and> p \<le> capital buyer)
          \<longrightarrow> (\<exists>s'. buyer_evaluates_counter l s agents = Inr s'
                    \<and> current_offer s' = price d \<and> status s' = status s
                    \<and> graph_step l agents (buyer_evaluates, s) = Inr (check_rounds, s')))"
proof (intro conjI impI)
  assume bad: "price d = None \<or> (\<exists>p. price d = Some p \<and> (p > capital buyer \<or> p \<le> 0))"
  define d' where "d' = (case price d of None \<Rightarrow> buyer_fallback
                         | Some p \<Rightarrow> d\<lparr>action := WALK_AWAY, price := None\<rparr>)"
  have ev: "evaluate_counter_as_buyer l (llm_calls s) buyer (Some cp)
              (buyer_last_offer s) (listing s) (seller_id s)
              (current_round s + 1) (history s) = Inr d'"
    using assms bad by (auto simp: evaluate_counter_as_buyer_def d'_def)
  have d': "action d' = WALK_AWAY" "price d' = None"
    by (auto simp: d'_def buyer_fallback_def split: option.splits)
  define s' where "s' = s\<lparr>current_round := current_round s + 1,
                            llm_calls := Suc (llm_calls s), status := walked_away,
                            history := history s @
                              [\<lparr>round_number = current_round s + 1, from_agent = buyer_id s,
                                to_agent = seller_id s, msg_action = WALK_AWAY,
                                msg_price = None,
                                message = or_default (decision_message d')
                                            ''I am going to pass''\<rparr>],
                            last_action := Some WALK_AWAY,
                            last_message := or_default (decision_message d')
                                              ''I am going to pass''\<rparr>"
  have st: "buyer_evaluates_counter l s agents = Inr s'"
    using assms ev d'
    by (simp add: buyer_evaluates_counter_def Let_def new_NegotiationMessage_def
                  or_default_def s'_def)
  then have gs: "graph_step l agents (buyer_evaluates, s) = Inr (failure, s')"
    by (simp add: route_buyer_decision_def s'_def)
  then have "invoke l agents (buyer_evaluates, s) = invoke l agents (failure, s')"
    by (simp del: graph_step.simps)
  then have "invoke l agents (buyer_evaluates, s) = Inr s'"
    by (simp only: invoke_failure)
  with ev d' st gs
  show "\<exists>d' s'. evaluate_counter_as_buyer l (llm_calls s) buyer (Some cp)
                          (buyer_last_offer s) (listing s) (seller_id s)
                          (current_round s + 1) (history s) = Inr d'
                      \<and> action d' = WALK_AWAY \<and> price d' = None
                      \<and> buyer_evaluates_counter l s agents = Inr s'
                      \<and> status s' = walked_away \<and> current_offer s' = current_offer s
                      \<and> msg_action (last (history s')) = WALK_AWAY
                      \<and> msg_price (last (history s')) = None
                      \<and> graph_step l agents (buyer_evaluates, s) = Inr (failure, s')
                      \<and> invoke l agents (buyer_evaluates, s) = Inr s'"
    by (intro exI[of _ d'] exI[of _ s']) (simp add: s'_def del: graph_step.simps)
next
  assume "\<exists>p. price d = Some p \<and> 0 < p \<and> p \<le> capital buyer"
  then obtain p where p: "price d = Some p" "0 < p" "p \<le> capital buyer" by blast
  have ev: "evaluate_counter_as_buyer l (llm_calls s) buyer (Some cp)
              (buyer_last_offer s) (listing s) (seller_id s)
              (current_round s + 1) (history s) = Inr d"
    using assms p by (simp add: evaluate_counter_as_buyer_def)
  define s' where "s' = s\<lparr>current_round := current_round s + 1,
                            llm_calls := Suc (llm_calls s), current_offer := Some p,
                            history := history s @
                              [\<lparr>round_number = current_round s + 1, from_agent = buyer_id s,
                                to_agent = seller_id s, msg_action = COUNTER,
                                msg_price = Some p,
                                message = or_default (decision_message d) ''How about $?''\<rparr>],
                            last_action := Some COUNTER,
                            last_message := or_default (decision_message d) ''How about $?''\<rparr>"
  have st: "buyer_evaluates_counter l s agents = Inr s'"
    using assms ev p
    by (simp add: buyer_evaluates_counter_def Let_def new_NegotiationMessage_def
                  or_default_def s'_def)
  then have gs: "graph_step l agents (buyer_evaluates, s) = Inr (check_rounds, s')"
    by (simp add: route_buyer_decision_def s'_def)
  with st p
  show "\<exists>s'. buyer_evaluates_counter l s agents = Inr s'
             \<and> current_offer s' = price d \<and> status s' = status s
             \<and> graph_step l agents (buyer_evaluates, s) = Inr (check_rounds, s')"
    by (intro exI[of _ s']) (simp add: s'_def del: graph_step.simps)
qed


theorem unaffordable_counter_walks_away_witness:
  "ex_agents (buyer_id ex_state_countered) = Some ex_buyer
   \<and> current_offer ex_state_countered = Some 400
   \<and> buyer_last_offer ex_state_countered = 300
   \<and> capital ex_buyer = 320
   \<and> llm_overbid (llm_calls ex_state_countered)
         (BuyerPrompt ex_buyer 400 (buyer_last_offer ex_state_countered)
            (listing ex_state_countered) (seller_id ex_state_countered)
            (current_round ex_state_countered + 1) (history ex_state_countered))
       = Returns \<lparr>action = COUNTER, price = Some 9999, decision_message = []\<rparr>
   \<and> (\<exists>s'. buyer_evaluates_counter llm_overbid ex_state_countered ex_agents = Inr s'
            \<and> status s' = walked_away
            \<and> current_offer s' = Some 400
            \<and> msg_action (last (history s')) = WALK_AWAY
            \<and> msg_price (last (history s')) = None
            \<and> invoke llm_overbid ex_agents (buyer_evaluates, ex_state_countered) = Inr s')
   \<and> (\<exists>s'. buyer_evaluates_counter llm_haggle ex_state_countered ex_agents = Inr s'
            \<and> current_offer s' = Some 310
            \<and> graph_step llm_haggle ex_agents (buyer_evaluates, ex_state_countered)
                = Inr (check_rounds, s'))"
proof -
  have a: "ex_agents (buyer_id ex_state_countered) = Some ex_buyer" by (simp add: ex_defs)
  have b: "current_offer ex_state_countered = Some 400" by (simp add: ex_defs)
  have c: "buyer_last_offer ex_state_countered = 300"
    by (simp add: ex_defs buyer_last_offer_def)
  have c': "buyer_last_offer ex_state_countered \<noteq> 0" using c by simp
  have d: "listing_price (listing ex_state_countered) \<noteq> 0" by (simp add: ex_defs)
  have e: "0 \<le> current_round ex_state_countered" "current_round ex_state_countered < 5"
    by (simp_all add: ex_defs)
  have f: "buyer_id ex_state_countered \<noteq> []" "seller_id ex_state_countered \<noteq> []"
    by (simp_all add: ex_defs)
  have cap: "capital ex_buyer = 320" by (simp add: ex_defs)
  have g: "llm_overbid (llm_calls ex_state_countered)
         (BuyerPrompt ex_buyer 400 (buyer_last_offer ex_state_countered)
            (listing ex_state_countered) (seller_id ex_state_countered)
            (current_round ex_state_countered + 1) (history ex_state_countered))
       = Returns \<lparr>action = COUNTER, price = Some 9999, decision_message = []\<rparr>"
    by (simp add: llm_overbid_def scripted_def says_def)
  have h: "llm_haggle (llm_calls ex_state_countered)
         (BuyerPrompt ex_buyer 400 (buyer_last_offer ex_state_countered)
            (listing ex_state_countered) (seller_id ex_state_countered)
            (current_round ex_state_countered + 1) (history ex_state_countered))
       = Returns \<lparr>action = COUNTER, price = Some 310, decision_message = []\<rparr>"
    by (simp add: llm_haggle_def scripted_def says_def)
  have k1: "action \<lparr>action = COUNTER, price = Some 9999, decision_message = []\<rparr> = COUNTER"
    by simp
  have k2: "action \<lparr>action = COUNTER, price = Some 310, decision_message = []\<rparr> = COUNTER"
    by simp
  note T1 = unaffordable_counter_walks_away[where agents = ex_agents
              and s = ex_state_countered and buyer = ex_buyer and cp = 400
              and l = llm_overbid
              and d = "\<lparr>action = COUNTER, price = Some 9999, decision_message = []\<rparr>",
              OF a b c' d e f g k1]
  note T2 = unaffordable_counter_walks_away[where agents = ex_agents
              and s = ex_state_countered and buyer = ex_buyer and cp = 400
              and l = llm_haggle
              and d = "\<lparr>action = COUNTER, price = Some 310, decision_message = []\<rparr>",
              OF a b c' d e f h k2]
  from T1 cap b
  have p1: "\<exists>s'. buyer_evaluates_counter llm_overbid ex_state_countered ex_agents = Inr s'
            \<and> status s' = walked_away
            \<and> current_offer s' = Some 400
            \<and> msg_action (last (history s')) = WALK_AWAY
            \<and> msg_price (last (history s')) = None
            \<and> invoke llm_overbid ex_agents (buyer_evaluates, ex_state_countered) = Inr s'"
    by auto
  from T2 cap
  have p2: "\<exists>s'. buyer_evaluates_counter llm_haggle ex_state_countered ex_agents = Inr s'
            \<and> current_offer s' = Some 310
            \<and> graph_step llm_haggle ex_agents (buyer_evaluates, ex_state_countered)
                = Inr (check_rounds, s')"
    by auto
  from a b c cap g p1 p2 show ?thesis by blast
qed


lemma modify_inventory_capital:
  "map_option capital (modify agents k (\<lambda>x. x\<lparr>inventory := f x\<rparr>) j)
     = map_option capital (agents j)"
  by (simp add: modify_def split: option.splits)

lemma update_capital_lookup:
  assumes "txn_buyer_id t \<noteq> txn_seller_id t"
  shows "map_option capital (update_capital agents t (txn_buyer_id t))
           = map_option (\<lambda>c. c + txn_cost_basis t)
               (map_option capital (agents (txn_buyer_id t)))"
    and "map_option capital (update_capital agents t (txn_seller_id t))
           = map_option (\<lambda>c. c - txn_cost_basis t)
               (map_option capital (agents (txn_seller_id t)))"
  using assms by (auto simp: update_capital_def modify_def split: option.splits)

lemma complete_transaction_final_price:
  "complete_transaction agents (t\<lparr>txn_final_price := x\<rparr>) = complete_transaction agents t"
  by (simp add: complete_transaction_def update_capital_def Let_def
           split: option.splits sum.splits)

text \<open>
  C7. A settlement that completes, between a buyer and a seller that are different
  agents, adds the transaction's cost basis to the buyer's capital and subtracts the same
  cost basis from the seller's capital. The agreed final price plays no part: the
  settlement of a transaction is the same whatever its final price.
\<close>

theorem settlement_moves_cost_basis:
  assumes "agents (txn_buyer_id t) = Some buyer"
    and "agents (txn_seller_id t) = Some seller"
    and "txn_buyer_id t \<noteq> txn_seller_id t"
    and "complete_transaction agents t = (None, agents')"
  shows "map_option capital (agents' (txn_buyer_id t))
           = Some (capital buyer + txn_cost_basis t)
         \<and> map_option capital (agents' (txn_seller_id t))
             = Some (capital seller - txn_cost_basis t)
         \<and> complete_transaction agents (t\<lparr>txn_final_price := x\<rparr>)
             = complete_transaction agents t"
proof -
  let ?match = "find (\<lambda>item. name (product item) = name (txn_product t)) (inventory seller)"
  have caps: "map_option capital (agents' (txn_buyer_id t))
                = Some (capital buyer + txn_cost_basis t)
              \<and> map_option capital (agents' (txn_seller_id t))
                  = Some (capital seller - txn_cost_basis t)"
  proof (cases ?match)
    case None
    with assms have "agents' = update_capital agents t"
      by (simp add: complete_transaction_def)
    with assms show ?thesis by (simp add: update_capital_lookup)
  next
    case (Some item_to_remove)
    with assms obtain new_item where
      "agents' = update_capital
                   (modify
                      (modify agents (txn_seller_id t)
                         (\<lambda>a. a\<lparr>inventory := remove1 item_to_remove (inventory a)\<rparr>))
                      (txn_buyer_id t) (\<lambda>b. b\<lparr>inventory := inventory b @ [new_item]\<rparr>))
                   t"
      by (auto simp: complete_transaction_def Let_def split: sum.splits)
    with assms show ?thesis
      by (simp add: update_capital_lookup modify_inventory_capital)
  qed
  with complete_transaction_final_price show ?thesis by blast
qed


lemma ex_settlement:
  "fst (complete_transaction ex_agents ex_transaction) = None"
  by (simp add: complete_transaction_def new_InventoryItem_def Let_def ex_defs)

theorem settlement_moves_cost_basis_witness:
  "ex_agents (txn_buyer_id ex_transaction) = Some ex_buyer
   \<and> ex_agents (txn_seller_id ex_transaction) = Some ex_seller
   \<and> txn_buyer_id ex_transaction \<noteq> txn_seller_id ex_transaction
   \<and> fst (complete_transaction ex_agents ex_transaction) = None
   \<and> capital ex_buyer = 320 \<and> capital ex_seller = 5000
   \<and> txn_cost_basis ex_transaction = 300 \<and> txn_final_price ex_transaction = 400
   \<and> map_option capital (snd (complete_transaction ex_agents ex_transaction) ''agent_2'')
       = Some 620
   \<and> map_option capital (snd (complete_transaction ex_agents ex_transaction) ''agent_1'')
       = Some 4700"
proof -
  have a: "ex_agents (txn_buyer_id ex_transaction) = Some ex_buyer" by (simp add: ex_defs)
  have b: "ex_agents (txn_seller_id ex_transaction) = Some ex_seller" by (simp add: ex_defs)
  have c: "txn_buyer_id ex_transaction \<noteq> txn_seller_id ex_transaction"
    by (simp add: ex_defs)
  have d: "complete_transaction ex_agents ex_transaction
             = (None, snd (complete_transaction ex_agents ex_transaction))"
    using ex_settlement by (simp add: prod_eq_iff)
  have e: "capital ex_buyer = 320" "capital ex_seller = 5000"
    "txn_cost_basis ex_transaction = 300" "txn_final_price ex_transaction = 400"
    "txn_buyer_id ex_transaction = ''agent_2''" "txn_seller_id ex_transaction = ''agent_1''"
    by (simp_all add: ex_defs)
  from settlement_moves_cost_basis[OF a b c d] e
  have "map_option capital (snd (complete_transaction ex_agents ex_transaction) ''agent_2'')
          = Some 620
        \<and> map_option capital (snd (complete_transaction ex_agents ex_transaction) ''agent_1'')
            = Some 4700"
    by simp
  with a b c ex_settlement e show ?thesis by simp
qed


text \<open>
  A session that succeeds was settled by \<open>complete_transaction\<close> on the transaction it
  reports, and reports that transaction's final price.
\<close>

lemma start_negotiation_settles:
  assumes res: "start_negotiation l eng b lst off = (Succeeded t fp r h, eng')"
  shows "complete_transaction (engine_agents eng) t = (None, engine_agents eng')
         \<and> fp = Some (txn_final_price t)"
proof (cases "invoke l (engine_agents eng) (buyer_offer, initial_state b lst off)")
  case (Inl e)
  with res show ?thesis by (simp add: start_negotiation_def)
next
  case (Inr sf)
  show ?thesis
  proof (cases "status sf = accepted")
    case False
    with res Inr show ?thesis
      by (simp add: start_negotiation_def split: option.splits)
  next
    case True
    show ?thesis
    proof (cases "create_transaction eng sf")
      case (Inl e)
      with res Inr True show ?thesis by (simp add: start_negotiation_def)
    next
      case ct: (Inr t0)
      obtain err agents' where ctx: "complete_transaction (engine_agents eng) t0 = (err, agents')"
        by (cases "complete_transaction (engine_agents eng) t0")
      show ?thesis
      proof (cases err)
        case (Some e)
        with res Inr True ct ctx show ?thesis by (simp add: start_negotiation_def)
      next
        case None
        with res Inr True ct ctx have eq: "t = t0" "fp = final_price sf"
          "engine_agents eng' = agents'"
          by (auto simp: start_negotiation_def)
        from ct have "final_price sf = Some (txn_final_price t0)"
          by (auto simp: create_transaction_def new_Transaction_def
                   split: option.splits if_splits)
        with eq ctx None show ?thesis by simp
      qed
    qed
  qed
qed


text \<open>
  C10, as stated, fails: when the seller no longer holds the listed product, the seller's
  evaluation returns with the status \<open>rejected\<close> and with the history as it was.
\<close>

theorem seller_step_without_message:
  "seller_evaluates_offer llm_accept ex_state_offered ex_agents_sold
     = Inr (ex_state_offered\<lparr>status := rejected, last_action := Some REJECT\<rparr>)
   \<and> history (ex_state_offered\<lparr>status := rejected, last_action := Some REJECT\<rparr>)
       = history ex_state_offered"
  by (simp add: seller_evaluates_offer_def ex_defs)

lemma ex_buyer_offers:
  "buyer_makes_initial_offer (initial_state ''agent_2'' ex_listing 300) ex_agents
     = Inr ex_state_offered"
  by (simp add: ex_defs node_defs)

lemma ex_seller_counters:
  "seller_evaluates_offer llm_counter_accept ex_state_offered ex_agents
     = Inr ex_state_countered"
  by (simp add: ex_defs node_defs)

text \<open>
  C10, amended. The buyer's opening offer and the buyer's evaluation, whenever they
  return, have appended exactly one message to the history. The seller's evaluation,
  whenever it returns, has appended exactly one message if the seller's inventory holds an
  item with the listing's product name, and none otherwise. (A step that raises returns
  no state: \<open>start_negotiation\<close> then reports an empty history.)
\<close>

theorem history_grows_by_one_message:
  "(\<forall>s s'. buyer_makes_initial_offer s agents = Inr s'
        \<longrightarrow> (\<exists>m. history s' = history s @ [m]))
   \<and> (\<forall>s s'. buyer_evaluates_counter l s agents = Inr s'
        \<longrightarrow> (\<exists>m. history s' = history s @ [m]))
   \<and> (\<forall>s s' seller. seller_evaluates_offer l s agents = Inr s'
                    \<and> agents (seller_id s) = Some seller
        \<longrightarrow> (if \<exists>item \<in> set (inventory seller).
                    name (product item) = name (listing_product (listing s))
             then \<exists>m. history s' = history s @ [m]
             else history s' = history s))"
proof (intro conjI allI impI)
  fix s s'
  assume "buyer_makes_initial_offer s agents = Inr s'"
  then show "\<exists>m. history s' = history s @ [m]"
    by (auto simp: buyer_makes_initial_offer_def split: sum.splits)
next
  fix s s'
  assume "buyer_evaluates_counter l s agents = Inr s'"
  then show "\<exists>m. history s' = history s @ [m]"
    by (auto simp: buyer_evaluates_counter_def Let_def
             split: sum.splits option.splits if_splits prod.splits)
next
  fix s s' seller
  assume h: "seller_evaluates_offer l s agents = Inr s' \<and> agents (seller_id s) = Some seller"
  let ?P = "\<lambda>item. name (product item) = name (listing_product (listing s))"
  show "if \<exists>item \<in> set (inventory seller). ?P item
        then \<exists>m. history s' = history s @ [m]
        else history s' = history s"
  proof (cases "find ?P (inventory seller)")
    case None
    then have "\<not> (\<exists>item \<in> set (inventory seller). ?P item)"
      by (simp add: find_None_iff)
    moreover from h None have "history s' = history s"
      by (auto simp: seller_evaluates_offer_def)
    ultimately show ?thesis by simp
  next
    case (Some item)
    then have "\<exists>item \<in> set (inventory seller). ?P item"
      by (auto simp: find_Some_iff)
    moreover from h Some have "\<exists>m. history s' = history s @ [m]"
      by (auto simp: seller_evaluates_offer_def
               split: sum.splits option.splits if_splits prod.splits)
    ultimately show ?thesis by simp
  qed
qed


theorem history_grows_by_one_message_witness:
  "buyer_makes_initial_offer (initial_state ''agent_2'' ex_listing 300) ex_agents
     = Inr ex_state_offered
   \<and> (\<exists>m. history ex_state_offered
            = history (initial_state ''agent_2'' ex_listing 300) @ [m])
   \<and> buyer_evaluates_counter llm_counter_accept ex_state_countered ex_agents
       = Inr ex_state_accepted
   \<and> (\<exists>m. history ex_state_accepted = history ex_state_countered @ [m])
   \<and> seller_evaluates_offer llm_counter_accept ex_state_offered ex_agents
       = Inr ex_state_countered
   \<and> ex_agents (seller_id ex_state_offered) = Some ex_seller
   \<and> (\<exists>m. history ex_state_countered = history ex_state_offered @ [m])"
proof -
  note T = history_grows_by_one_message[of ex_agents llm_counter_accept]
  have a: "ex_agents (seller_id ex_state_offered) = Some ex_seller" by (simp add: ex_defs)
  have b: "\<exists>item \<in> set (inventory ex_seller).
             name (product item) = name (listing_product (listing ex_state_offered))"
    by (simp add: ex_defs)
  from T ex_buyer_offers
  have p1: "\<exists>m. history ex_state_offered
                  = history (initial_state ''agent_2'' ex_listing 300) @ [m]"
    by blast
  from T ex_buyer_accepts
  have p2: "\<exists>m. history ex_state_accepted = history ex_state_countered @ [m]" by blast
  from T ex_seller_counters a
  have "if \<exists>item \<in> set (inventory ex_seller).
             name (product item) = name (listing_product (listing ex_state_offered))
        then \<exists>m. history ex_state_countered = history ex_state_offered @ [m]
        else history ex_state_countered = history ex_state_offered"
    by blast
  with b have p3: "\<exists>m. history ex_state_countered = history ex_state_offered @ [m]"
    by simp
  from ex_buyer_offers p1 ex_buyer_accepts p2 ex_seller_counters a p3 show ?thesis by blast
qed


lemmas settle_defs =
  start_negotiation_def create_transaction_def new_Transaction_def complete_transaction_def
  new_InventoryItem_def update_capital_def modify_def remove_listing_def
  record_transaction_def run_opportunity_def get_listing_def Let_def

text \<open>
  C4 does not hold of the code: the buyer's evaluation validates the price of a COUNTER
  against the buyer's capital, but not the price the buyer accepts. The buyer holds 320
  and opens at 300, which passes the coordinator's check; the seller counters at 400 and
  the buyer accepts: the session succeeds with a final price of 400.
\<close>

theorem accept_above_capital:
  "map_sum id fst (run_opportunity llm_counter_accept ex_engine ex_opportunity)
     = Inr (Some (Succeeded ex_transaction (Some 400) 2 (history ex_state_accepted)))
   \<and> engine_agents ex_engine (opp_buyer_id ex_opportunity) = Some ex_buyer
   \<and> capital ex_buyer = 320"
  by (simp add: settle_defs ex_defs node_defs)

text \<open>
  C6 does not hold of the code: the settlement debits the seller by the cost basis without
  looking at the seller's capital. A seller with 200 of capital sells the drill it holds
  at a cost basis of 300 and is left with a capital of -100.
\<close>

theorem seller_capital_goes_negative:
  "is_success (fst (start_negotiation llm_accept ex_engine_poor ''agent_2'' ex_listing 300))
   \<and> map_option capital (engine_agents ex_engine_poor ''agent_1'') = Some 200
   \<and> map_option capital
        (engine_agents (snd (start_negotiation llm_accept ex_engine_poor ''agent_2''
                               ex_listing 300)) ''agent_1'') = Some (- 100)"
  by (simp add: settle_defs ex_defs node_defs)

text \<open>
  C8 does not hold of the code at the boundary: when the policy fails and the offer equals
  the listing's minimum acceptable price (350), the seller's fallback rejects.
\<close>

theorem seller_fallback_rejects_at_minimum:
  "evaluate_offer_as_seller llm_down 0 ex_seller (Some 350) (cost_basis ex_item)
       (listing_price ex_listing) (minimum_acceptable ex_listing) ''agent_2'' 1 []
     = Inr \<lparr>action = REJECT, price = None, decision_message = []\<rparr>
   \<and> minimum_acceptable ex_listing = 350"
  by (simp add: ex_defs node_defs)

text \<open>
  What the two fallbacks do in general: a failure of the policy never propagates; the
  seller's fallback accepts an offer strictly above the minimum and rejects any other,
  and the buyer's fallback walks away.
\<close>

lemma policy_failure_fallbacks:
  "l n (SellerPrompt self offer cost lprice minimum buyer r h) = Raises
     \<Longrightarrow> cost \<noteq> 0 \<Longrightarrow> lprice \<noteq> 0 \<Longrightarrow> minimum \<noteq> 0
     \<Longrightarrow> evaluate_offer_as_seller l n self (Some offer) cost lprice minimum buyer r h
           = Inr \<lparr>action = (if offer > minimum then ACCEPT else REJECT), price = None,
                  decision_message = []\<rparr>"
  "l n (BuyerPrompt self counter mine lst seller r h) = Raises
     \<Longrightarrow> mine \<noteq> 0 \<Longrightarrow> listing_price lst \<noteq> 0
     \<Longrightarrow> evaluate_counter_as_buyer l n self (Some counter) mine lst seller r h
           = Inr \<lparr>action = WALK_AWAY, price = None, decision_message = []\<rparr>"
  by (simp_all add: evaluate_offer_as_seller_def evaluate_counter_as_buyer_def
                    seller_fallback_def buyer_fallback_def)

text \<open>The whole session at that boundary: the offer of 350 is rejected in round 1.\<close>

lemma ex_fallback_session:
  "start_negotiation llm_down ex_engine ''agent_2'' ex_listing 350
     = (Failed (Status rejected) 1
          [ex_offer_message\<lparr>msg_price := Some 350\<rparr>,
           \<lparr>round_number = 1, from_agent = ''agent_1'', to_agent = ''agent_2'',
            msg_action = REJECT, msg_price = None,
            message = ''Sorry, I cannot accept your offer of . Deal''\<rparr>],
        ex_engine)"
  by (simp add: settle_defs ex_defs node_defs)


end
